theory Spec2Isabelle
  imports Complex_Main "HOL-Library.Log_Nat" "HOL-Library.Word"
begin

section \<open>The SecuX hardware keyring (src/keyring/eth-secux-keyring.js)\<close>

text \<open>
  A shallow embedding of the class \<open>SecuxKeyring\<close>. The keyring object is a record,
  every method takes the record and returns the updated one together with the settled
  outcome of its promise and the list of effects (device calls, timers) it issued, in
  order. What the device answers is an argument of the method that awaits the answer.

  The pagination cursor \<open>page\<close> is a JavaScript number with the arithmetic of doubles.
  The other numbers the keyring holds (\<open>perPage\<close>, \<open>unlockedAccount\<close>, derivation
  indices) are modelled as \<open>int\<close>: there the model covers integer values on which the
  arithmetic of doubles is exact.
\<close>

subsection \<open>JavaScript values that are thrown or used to reject a promise\<close>

datatype js_error =
    Error string
  | TypeError string
  | ReferenceError string
  | RangeError string

text \<open>\<open>Error.prototype.toString\<close>: the name, then \<open>": "\<close> and the message if it is not empty.\<close>

fun error_name :: "js_error \<Rightarrow> string" where
  "error_name (Error m) = ''Error''"
| "error_name (TypeError m) = ''TypeError''"
| "error_name (ReferenceError m) = ''ReferenceError''"
| "error_name (RangeError m) = ''RangeError''"

fun error_message :: "js_error \<Rightarrow> string" where
  "error_message (Error m) = m"
| "error_message (TypeError m) = m"
| "error_message (ReferenceError m) = m"
| "error_message (RangeError m) = m"

definition error_toString :: "js_error \<Rightarrow> string" where
  "error_toString e =
     (if error_message e = [] then error_name e else error_name e @ '': '' @ error_message e)"

text \<open>
  A value a promise is rejected with: \<open>undefined\<close> (standing for the falsy values without
  a useful description), a string, or an error object.
\<close>

datatype js_value = Undefined | Str string | Thrown js_error

text \<open>The expression \<open>(e && e.toString()) || 'Unknown error'\<close> of the \<open>catch\<close> handlers.\<close>

definition or_unknown :: "string \<Rightarrow> string" where
  "or_unknown m = (if m = [] then ''Unknown error'' else m)"

fun describe_rejection :: "js_value \<Rightarrow> string" where
  "describe_rejection Undefined = ''Unknown error''"
| "describe_rejection (Str m) = or_unknown m"
| "describe_rejection (Thrown e) = or_unknown (error_toString e)"

text \<open>
  The settled state of a promise returned by a method. \<open>Unsettled\<close> is a promise whose
  \<open>resolve\<close> and \<open>reject\<close> are never called.
\<close>

datatype 'a promise = Resolved 'a | Rejected js_value | Unsettled

text \<open>What an awaited call to the device SDK gives: a response, or a rejection.\<close>

datatype 'a reply = Reply 'a | Failure js_value

subsection \<open>JavaScript numbers\<close>

text \<open>
  A number other than \<open>NaN\<close>: a finite double, held as the rational it denotes (\<open>-0\<close> is
  not told apart from \<open>0\<close>), or an infinity. \<open>opts.page || 0\<close> never stores \<open>NaN\<close>.
\<close>

datatype js_number = Finite rat | PosInfinity | NegInfinity

instantiation js_number :: zero
begin

definition zero_js_number :: js_number where
  "zero_js_number = Finite 0"

instance ..

end

text \<open>
  Rounding a rational to the nearest double, ties to the even significand:
  \<open>ilog2\<close> is the binary exponent of a positive rational, the significand has 53 bits,
  the least exponent of the last bit is -1074, and a result above the largest finite
  double is an infinity.
\<close>

definition ilog2 :: "rat \<Rightarrow> int" where
  "ilog2 x =
     (let (a, b) = quotient_of x; k = bitlen a - bitlen b in
      if 2 powi k \<le> x then k else k - 1)"

definition round_half_even :: "rat \<Rightarrow> int" where
  "round_half_even x =
     (let f = \<lfloor>x\<rfloor>; d = x - of_int f in
      if d < 1 / 2 then f else if 1 / 2 < d then f + 1 else if even f then f else f + 1)"

definition max_finite :: rat where
  "max_finite = (2 ^ 53 - 1) * 2 ^ 971"

definition round_double :: "rat \<Rightarrow> js_number" where
  "round_double x =
     (if x = 0 then Finite 0
      else
        let e = max (ilog2 \<bar>x\<bar> - 52) (- 1074);
            y = of_int (round_half_even (\<bar>x\<bar> / 2 powi e)) * 2 powi e in
        if max_finite < y then (if x < 0 then NegInfinity else PosInfinity)
        else Finite (sgn x * y))"

text \<open>\<open>a + y\<close> for a finite \<open>y\<close>, and \<open>a <= b\<close>.\<close>

definition js_add :: "js_number \<Rightarrow> rat \<Rightarrow> js_number" where
  "js_add a y =
     (case a of
        Finite x \<Rightarrow> round_double (x + y)
      | PosInfinity \<Rightarrow> PosInfinity
      | NegInfinity \<Rightarrow> NegInfinity)"

fun js_le :: "js_number \<Rightarrow> js_number \<Rightarrow> bool" where
  "js_le NegInfinity b = True"
| "js_le a PosInfinity = True"
| "js_le (Finite x) (Finite y) = (x \<le> y)"
| "js_le a b = False"

subsection \<open>Constants\<close>

definition hdPathString :: string where
  "hdPathString = ''m/44'/60'/0'/0/0''"

definition pathBase :: string where
  "pathBase = ''m''"

definition MAX_INDEX :: int where
  "MAX_INDEX = 1000"

definition DELAY_BETWEEN_POPUPS :: nat where
  "DELAY_BETWEEN_POPUPS = 1000"

subsection \<open>Session state\<close>

text \<open>
  \<open>this.hdk\<close> is \<open>null\<close> or an HD key object whose \<open>publicKey\<close> and \<open>chainCode\<close> may be
  unset; the buffers are kept as the hex strings they are decoded from.
\<close>

record hdkey =
  publicKey :: "string option"
  chainCode :: "string option"

record keyring =
  hdPath :: string
  accounts :: "string list"
  hdk :: "hdkey option"
  page :: js_number
  perPage :: int
  unlockedAccount :: int
  paths :: "string \<rightharpoonup> int"

text \<open>
  The options object of the constructor and of \<open>deserialize\<close>, which is also the shape of
  the snapshot \<open>serialize\<close> produces: every property may be missing.
\<close>

record opts =
  o_hdPath :: "string option"
  o_accounts :: "string list option"
  o_page :: "js_number option"
  o_paths :: "(string \<rightharpoonup> int) option"
  o_perPage :: "int option"
  o_unlockedAccount :: "int option"

subsection \<open>Effects\<close>

text \<open>
  The transaction fields sent to the device, as opaque strings, absent ones \<open>None\<close>
  (\<open>tx_to\<close>, \<open>tx_value\<close> and \<open>tx_data\<close> are the properties \<open>to\<close>, \<open>value\<close> and \<open>data\<close>).
\<close>

record tx_request =
  chainId :: "string option"
  nonce :: "string option"
  maxPriorityFeePerGas :: "string option"
  maxFeePerGas :: "string option"
  gasLimit :: "string option"
  tx_to :: "string option"
  tx_value :: "string option"
  accessList :: "string option"
  tx_data :: "string option"

text \<open>
  \<open>txData\<close>: the JSON form of a transaction with the properties \<open>signTransaction\<close>
  adds to it (\<open>type\<close>, and the signature parts \<open>r\<close>, \<open>s\<close>, \<open>v\<close> as byte strings).
  A transaction object \<open>tx\<close> is its JSON form, its \<open>type\<close> and its \<open>common\<close>.
\<close>

record tx_json = tx_request +
  gasPrice :: "string option"
  tx_type :: "int option"
  tx_r :: "8 word list option"
  tx_s :: "8 word list option"
  tx_v :: "8 word list option"

record tx =
  toJSON :: tx_json
  txtype :: int
  common :: string

datatype effect =
    GetXPublickey string
  | GetAddress string
  | SignTransaction string tx_request
  | SignMessage string string
  | SetTimeout nat

type_synonym 'a result = "'a promise \<times> effect list \<times> keyring"

definition outcome :: "'a result \<Rightarrow> 'a promise" where
  "outcome r = fst r"

definition effects :: "'a result \<Rightarrow> effect list" where
  "effects r = fst (snd r)"

definition after :: "'a result \<Rightarrow> keyring" where
  "after r = snd (snd r)"

subsection \<open>Serialization\<close>

definition serialize :: "keyring \<Rightarrow> opts" where
  "serialize s =
     \<lparr> o_hdPath = Some (hdPath s),
       o_accounts = Some (accounts s),
       o_page = Some (page s),
       o_paths = Some (paths s),
       o_perPage = Some (perPage s),
       o_unlockedAccount = Some (unlockedAccount s) \<rparr>"

text \<open>\<open>x || d\<close> on a string and on a number: a missing, empty or zero value gives \<open>d\<close>.\<close>

definition string_or :: "string option \<Rightarrow> string \<Rightarrow> string" where
  "string_or x d = (case x of None \<Rightarrow> d | Some v \<Rightarrow> if v = [] then d else v)"

definition number_or :: "'a::zero option \<Rightarrow> 'a \<Rightarrow> 'a" where
  "number_or x d = (case x of None \<Rightarrow> d | Some v \<Rightarrow> if v = 0 then d else v)"

definition list_or :: "'a list option \<Rightarrow> 'a list \<Rightarrow> 'a list" where
  "list_or x d = (case x of None \<Rightarrow> d | Some v \<Rightarrow> v)"

definition deserialize :: "opts \<Rightarrow> keyring \<Rightarrow> keyring" where
  "deserialize os s =
     s\<lparr> hdPath := string_or (o_hdPath os) hdPathString,
        accounts := list_or (o_accounts os) [],
        page := number_or (o_page os) 0,
        perPage := number_or (o_perPage os) 5 \<rparr>"

text \<open>
  The constructor sets the fields and then calls \<open>deserialize(opts)\<close>. \<open>hdPath\<close> is not
  assigned before \<open>deserialize\<close> assigns it, so its value in the initial record is
  immaterial.
\<close>

definition constructor :: "opts \<Rightarrow> keyring" where
  "constructor os =
     deserialize os
       \<lparr> hdPath = [], accounts = [], hdk = None, page = 0, perPage = 5,
         unlockedAccount = 0, paths = Map.empty \<rparr>"

definition no_opts :: opts where
  "no_opts =
     \<lparr> o_hdPath = None, o_accounts = None, o_page = None, o_paths = None,
       o_perPage = None, o_unlockedAccount = None \<rparr>"

subsection \<open>Unlocking\<close>

definition isUnlocked :: "keyring \<Rightarrow> bool" where
  "isUnlocked s = (case hdk s of None \<Rightarrow> False | Some h \<Rightarrow> publicKey h \<noteq> None)"

text \<open>
  The response of \<open>device.getXPublickey\<close>: \<open>success\<close> with the payload's two hex strings,
  or a failure with \<open>payload.error\<close> when the payload has one.
\<close>

datatype xpub_response = XpubSuccess string string | XpubFailure "string option"

definition null_hdk_message :: string where
  "null_hdk_message = ''Cannot set properties of null (setting 'publicKey')''"

text \<open>
  \<open>unlock\<close>. Assigning \<open>this.hdk.publicKey\<close> while \<open>this.hdk\<close> is \<open>null\<close> throws a
  \<open>TypeError\<close> inside the \<open>then\<close> handler, which the \<open>catch\<close> handler turns into a
  rejection with \<open>new Error(e.toString())\<close>.
\<close>

definition unlock :: "xpub_response reply \<Rightarrow> keyring \<Rightarrow> string result" where
  "unlock dev s =
     (if isUnlocked s then (Resolved ''already unlocked'', [], s)
      else
        (case dev of
           Reply (XpubSuccess pk cc) \<Rightarrow>
             (case hdk s of
                Some h \<Rightarrow>
                  (Resolved ''just unlocked'', [GetXPublickey (hdPath s)],
                   s\<lparr>hdk := Some (h\<lparr>publicKey := Some pk, chainCode := Some cc\<rparr>)\<rparr>)
              | None \<Rightarrow>
                  (Rejected (Thrown (Error
                     (describe_rejection (Thrown (TypeError null_hdk_message))))),
                   [GetXPublickey (hdPath s)], s))
         | Reply (XpubFailure m) \<Rightarrow>
             (Rejected (Thrown (Error (or_unknown (case m of None \<Rightarrow> [] | Some x \<Rightarrow> x)))),
              [GetXPublickey (hdPath s)], s)
         | Failure e \<Rightarrow>
             (Rejected (Thrown (Error (describe_rejection e))),
              [GetXPublickey (hdPath s)], s)))"

definition setAccountToUnlock :: "int \<Rightarrow> keyring \<Rightarrow> keyring" where
  "setAccountToUnlock index s = s\<lparr>unlockedAccount := index\<rparr>"

subsection \<open>Library functions\<close>

text \<open>
  The functions of \<open>ethereumjs-util\<close>, \<open>hdkey\<close> and \<open>@ethereumjs/tx\<close> the keyring calls
  are parameters of the model; each may throw.
  \<^item> \<open>toChecksumAddress\<close> is \<open>ethUtil.toChecksumAddress\<close>;
  \<^item> \<open>derive_address h p\<close> is the hex string
    \<open>ethUtil.publicToAddress(h.derive(p).publicKey, true).toString('hex')\<close>;
  \<^item> \<open>fromTxData d c\<close> is \<open>TransactionFactory.fromTxData(d, {common: c, freeze: true})\<close>;
  \<^item> \<open>getSenderAddress t\<close> is \<open>t.getSenderAddress().toString('hex')\<close>.
\<close>

record env =
  toChecksumAddress :: "string \<Rightarrow> js_error + string"
  derive_address :: "hdkey \<Rightarrow> string \<Rightarrow> js_error + string"
  fromTxData :: "tx_json \<Rightarrow> string \<Rightarrow> js_error + tx"
  getSenderAddress :: "tx \<Rightarrow> js_error + string"

text \<open>\<open>ethUtil.addHexPrefix\<close>.\<close>

definition addHexPrefix :: "string \<Rightarrow> string" where
  "addHexPrefix str = (if take 2 str = ''0x'' then str else ''0x'' @ str)"

text \<open>The decimal form of an integer inside a template literal.\<close>

definition digit_char :: "nat \<Rightarrow> char" where
  "digit_char d = ''0123456789'' ! d"

fun show_nat :: "nat \<Rightarrow> string" where
  "show_nat n =
     (if n < 10 then [digit_char n] else show_nat (n div 10) @ [digit_char (n mod 10)])"

declare show_nat.simps [simp del]

definition show_int :: "int \<Rightarrow> string" where
  "show_int i = (if i < 0 then ''-'' @ show_nat (nat (- i)) else show_nat (nat i))"

text \<open>\<open>buffer.toString('hex')\<close>.\<close>

definition hex_char :: "nat \<Rightarrow> char" where
  "hex_char d = ''0123456789abcdef'' ! d"

definition hex_byte :: "8 word \<Rightarrow> string" where
  "hex_byte b = [hex_char (unat b div 16), hex_char (unat b mod 16)]"

definition toString_hex :: "8 word list \<Rightarrow> string" where
  "toString_hex bs = concat (map hex_byte bs)"

subsection \<open>Deriving addresses\<close>

definition null_derive_message :: string where
  "null_derive_message = ''Cannot read properties of null (reading 'derive')''"

definition addressFromIndex :: "env \<Rightarrow> string \<Rightarrow> int \<Rightarrow> keyring \<Rightarrow> js_error + string" where
  "addressFromIndex env pb i s =
     (case hdk s of
        None \<Rightarrow> Inl (TypeError null_derive_message)
      | Some h \<Rightarrow>
          (case derive_address env h (pb @ ''/'' @ show_int i) of
             Inl e \<Rightarrow> Inl e
           | Inr address \<Rightarrow> toChecksumAddress env (''0x'' @ address)))"

text \<open>The loop of \<open>addAccounts\<close>; a throw leaves the loop with the state reached so far.\<close>

function addAccounts_loop :: "env \<Rightarrow> int \<Rightarrow> int \<Rightarrow> keyring \<Rightarrow> js_error option \<times> keyring" where
  "addAccounts_loop env i to s =
     (if i < to then
        (case addressFromIndex env pathBase i s of
           Inl e \<Rightarrow> (Some e, s)
         | Inr address \<Rightarrow>
             addAccounts_loop env (i + 1) to
               (s\<lparr>accounts :=
                    (if address \<in> set (accounts s) then accounts s
                     else accounts s @ [address]),
                  page := 0\<rparr>))
      else (None, s))"
  by pat_completeness auto
termination
  by (relation "measure (\<lambda>(env, i, to, s). nat (to - i))") auto

declare addAccounts_loop.simps [simp del]

definition addAccounts :: "env \<Rightarrow> int \<Rightarrow> xpub_response reply \<Rightarrow> keyring \<Rightarrow> string list result" where
  "addAccounts env n dev s =
     (case unlock dev s of
        (Rejected e, fx, s1) \<Rightarrow> (Rejected e, fx, s1)
      | (Unsettled, fx, s1) \<Rightarrow> (Unsettled, fx, s1)
      | (Resolved status, fx, s1) \<Rightarrow>
          (let from = unlockedAccount s1; to = from + n in
           case addAccounts_loop env from to s1 of
             (Some e, s2) \<Rightarrow> (Rejected (Thrown e), fx, s2)
           | (None, s2) \<Rightarrow> (Resolved (accounts s2), fx, s2)))"

subsection \<open>Paging\<close>

record page_entry =
  address :: string
  balance :: "int option"
  index :: int

function getPage_loop ::
  "env \<Rightarrow> int \<Rightarrow> int \<Rightarrow> page_entry list \<Rightarrow> keyring \<Rightarrow> (js_error + page_entry list) \<times> keyring" where
  "getPage_loop env i to acc s =
     (if i < to then
        (case addressFromIndex env pathBase i s of
           Inl e \<Rightarrow> (Inl e, s)
         | Inr a \<Rightarrow>
             (case toChecksumAddress env a of
                Inl e \<Rightarrow> (Inl e, s)
              | Inr key \<Rightarrow>
                  getPage_loop env (i + 1) to
                    (acc @ [\<lparr>address = a, balance = None, index = i\<rparr>])
                    (s\<lparr>paths := (paths s)(key \<mapsto> i)\<rparr>)))
      else (Inr acc, s))"
  by pat_completeness auto
termination
  by (relation "measure (\<lambda>(env, i, to, acc, s). nat (to - i))") auto

declare getPage_loop.simps [simp del]

text \<open>
  \<open>__getPage\<close> first moves the cursor (\<open>this.page += increment\<close>, then the reset to 1 of
  a cursor that is \<open><= 0\<close>), before the promise is made.
\<close>

definition getPage_cursor :: "rat \<Rightarrow> keyring \<Rightarrow> keyring" where
  "getPage_cursor increment s =
     (let s1 = s\<lparr>page := js_add (page s) increment\<rparr> in
      if js_le (page s1) 0 then s1\<lparr>page := Finite 1\<rparr> else s1)"

text \<open>
  The bounds \<open>from = (this.page - 1) * this.perPage\<close> and \<open>to = from + this.perPage\<close> of
  the listing, where \<open>page\<close> is an integer and \<open>page - 1\<close>, \<open>perPage\<close>, \<open>from\<close> and \<open>to\<close>
  are integers of magnitude at most \<open>2 ^ 53\<close>: there the doubles are these integers, and
  so is every index between them. \<open>None\<close> otherwise: the listing then runs on indices
  that are not such integers, which the model of paths and of the index does not cover.
\<close>

definition safe_integer :: "int \<Rightarrow> bool" where
  "safe_integer n = (\<bar>n\<bar> \<le> 2 ^ 53)"

definition listing_range :: "keyring \<Rightarrow> (int \<times> int) option" where
  "listing_range s =
     (case page s of
        Finite x \<Rightarrow>
          (let from = (\<lfloor>x\<rfloor> - 1) * perPage s; to = from + perPage s in
           if of_int \<lfloor>x\<rfloor> = x \<and> safe_integer (\<lfloor>x\<rfloor> - 1) \<and> safe_integer (perPage s)
              \<and> safe_integer from \<and> safe_integer to
           then Some (from, to) else None)
      | PosInfinity \<Rightarrow> None
      | NegInfinity \<Rightarrow> None)"

text \<open>
  \<open>__getPage\<close>: the cursor move, then the promise. The result is \<open>None\<close> where
  \<open>unlock\<close> resolves and the listing is outside \<open>listing_range\<close>.
\<close>

definition getPage ::
  "env \<Rightarrow> rat \<Rightarrow> xpub_response reply \<Rightarrow> keyring \<Rightarrow> page_entry list result option" where
  "getPage env increment dev s =
     (case unlock dev (getPage_cursor increment s) of
        (Rejected e, fx, s3) \<Rightarrow> Some (Rejected e, fx, s3)
      | (Unsettled, fx, s3) \<Rightarrow> Some (Unsettled, fx, s3)
      | (Resolved status, fx, s3) \<Rightarrow>
          (case listing_range s3 of
             None \<Rightarrow> None
           | Some (from, to) \<Rightarrow>
               (case getPage_loop env from to [] s3 of
                  (Inl e, s4) \<Rightarrow> Some (Rejected (Thrown e), fx, s4)
                | (Inr accs, s4) \<Rightarrow> Some (Resolved accs, fx, s4))))"

definition getFirstPage ::
  "env \<Rightarrow> xpub_response reply \<Rightarrow> keyring \<Rightarrow> page_entry list result option" where
  "getFirstPage env dev s = getPage env 1 dev (s\<lparr>page := 0\<rparr>)"

definition getNextPage ::
  "env \<Rightarrow> xpub_response reply \<Rightarrow> keyring \<Rightarrow> page_entry list result option" where
  "getNextPage env dev s = getPage env 1 dev s"

definition getPreviousPage ::
  "env \<Rightarrow> xpub_response reply \<Rightarrow> keyring \<Rightarrow> page_entry list result option" where
  "getPreviousPage env dev s = getPage env (- 1) dev s"

subsection \<open>Accounts\<close>

text \<open>\<open>getAccounts\<close> awaits \<open>SecuxETH.getAddress(this.device, this.hdPath)\<close>.\<close>

definition getAccounts :: "string reply \<Rightarrow> keyring \<Rightarrow> string list result" where
  "getAccounts dev s =
     (case dev of
        Failure e \<Rightarrow> (Rejected e, [GetAddress (hdPath s)], s)
      | Reply a \<Rightarrow> (Resolved [a], [GetAddress (hdPath s)], s\<lparr>accounts := [a]\<rparr>))"

text \<open>
  \<open>forgetDevice\<close> clears the accounts and then evaluates \<open>new HDKey()\<close>; the module does
  not bind \<open>HDKey\<close> (its \<open>require\<close> is commented out), so a \<open>ReferenceError\<close> is thrown
  before the remaining assignments.
\<close>

definition forgetDevice :: "keyring \<Rightarrow> js_error option \<times> keyring" where
  "forgetDevice s = (Some (ReferenceError ''HDKey is not defined''), s\<lparr>accounts := []\<rparr>)"

subsection \<open>Resolving the path of an address\<close>

text \<open>
  The scan of \<open>_pathFromAddress\<close>: \<open>Inr (Some i)\<close> at the first match (\<open>break\<close>),
  \<open>Inr None\<close> when \<open>index\<close> is still \<open>undefined\<close> after the loop.
\<close>

function scan :: "env \<Rightarrow> string \<Rightarrow> int \<Rightarrow> keyring \<Rightarrow> js_error + int option" where
  "scan env checksummedAddress i s =
     (if i < MAX_INDEX then
        (case addressFromIndex env pathBase i s of
           Inl e \<Rightarrow> Inl e
         | Inr a \<Rightarrow>
             if checksummedAddress = a then Inr (Some i)
             else scan env checksummedAddress (i + 1) s)
      else Inr None)"
  by pat_completeness auto
termination
  by (relation "measure (\<lambda>(env, a, i, s). nat (MAX_INDEX - i))") auto

declare scan.simps [simp del]

text \<open>
  \<open>_pathFromAddress\<close>. The keys of \<open>this.paths\<close> are checksummed addresses, so the lookup
  is a map lookup. The method assigns no field; the keyring is returned as it was given.
\<close>

definition pathFromAddress :: "env \<Rightarrow> string \<Rightarrow> keyring \<Rightarrow> (js_error + string) \<times> keyring" where
  "pathFromAddress env addr s =
     (case toChecksumAddress env addr of
        Inl e \<Rightarrow> (Inl e, s)
      | Inr checksummedAddress \<Rightarrow>
          (case (case paths s checksummedAddress of
                   Some i \<Rightarrow> Inr (Some i)
                 | None \<Rightarrow> scan env checksummedAddress 0 s) of
             Inl e \<Rightarrow> (Inl e, s)
           | Inr None \<Rightarrow> (Inl (Error ''Unknown address''), s)
           | Inr (Some i) \<Rightarrow> (Inr (hdPath s @ ''/'' @ show_int i), s)))"

subsection \<open>Signing\<close>

definition request_of :: "tx_json \<Rightarrow> tx_request" where
  "request_of txData =
     \<lparr> chainId = chainId txData,
       nonce = nonce txData,
       maxPriorityFeePerGas = maxPriorityFeePerGas txData,
       maxFeePerGas = maxFeePerGas txData,
       gasLimit = gasLimit txData,
       tx_to = tx_to txData,
       tx_value = tx_value txData,
       accessList = accessList txData,
       tx_data = tx_data txData \<rparr>"

definition mismatch_message :: string where
  "mismatch_message = ''signature doesn't match the right address''"

text \<open>
  \<open>signTransaction\<close>; the device's answer is the signature buffer of its response. An
  exception or a rejected \<open>await\<close> inside the \<open>async\<close> method rejects its promise with
  the value thrown.
\<close>

definition txData_of :: "tx \<Rightarrow> tx_json" where
  "txData_of t = (toJSON t)\<lparr>tx_type := Some (txtype t)\<rparr>"

text \<open>The assignments of \<open>r\<close>, \<open>s\<close> and \<open>v\<close> from the slices of the signature.\<close>

definition with_signature :: "tx_json \<Rightarrow> 8 word list \<Rightarrow> tx_json" where
  "with_signature txData signature =
     txData\<lparr>tx_r := Some (take 32 signature),
            tx_s := Some (take 32 (drop 32 signature)),
            tx_v := Some (drop 64 signature)\<rparr>"

definition signTransaction :: "env \<Rightarrow> string \<Rightarrow> tx \<Rightarrow> 8 word list reply \<Rightarrow> keyring \<Rightarrow> tx result" where
  "signTransaction env addr t dev s =
     (let txData = txData_of t;
          fx = [SignTransaction (hdPath s) (request_of txData)] in
      case dev of
        Failure e \<Rightarrow> (Rejected e, fx, s)
      | Reply signature \<Rightarrow>
          (case fromTxData env (with_signature txData signature) (common t) of
             Inl e \<Rightarrow> (Rejected (Thrown e), fx, s)
           | Inr newOrMutatedTx \<Rightarrow>
               (case getSenderAddress env newOrMutatedTx of
                  Inl e \<Rightarrow> (Rejected (Thrown e), fx, s)
                | Inr sender \<Rightarrow>
                    (case toChecksumAddress env (addHexPrefix sender) of
                       Inl e \<Rightarrow> (Rejected (Thrown e), fx, s)
                     | Inr addressSignedWith \<Rightarrow>
                         (case toChecksumAddress env addr of
                            Inl e \<Rightarrow> (Rejected (Thrown e), fx, s)
                          | Inr correctAddress \<Rightarrow>
                              if addressSignedWith \<noteq> correctAddress
                              then (Rejected (Thrown (Error mismatch_message)), fx, s)
                              else (Resolved newOrMutatedTx, fx, s))))))"

definition undefined_payload_message :: string where
  "undefined_payload_message = ''Cannot read properties of undefined (reading 'payload')''"

text \<open>
  \<open>signPersonalMessage\<close>. The timer callback runs outside the promise chain: when
  \<open>_pathFromAddress\<close> throws there, neither \<open>resolve\<close> nor \<open>reject\<close> is called. The
  answer of \<open>SecuxETH.signMessage\<close> is its response's signature, \<open>None\<close> for a response
  that is \<open>undefined\<close>.
\<close>

definition popup_delay :: "string \<Rightarrow> nat" where
  "popup_delay status = (if status = ''just unlocked'' then DELAY_BETWEEN_POPUPS else 0)"

definition signPersonalMessage ::
  "env \<Rightarrow> string \<Rightarrow> string \<Rightarrow> xpub_response reply \<Rightarrow> 8 word list option reply \<Rightarrow> keyring
     \<Rightarrow> string result" where
  "signPersonalMessage env withAccount message dev sdev s =
     (case unlock dev s of
        (Rejected e, fx, s1) \<Rightarrow> (Rejected (Thrown (Error (describe_rejection e))), fx, s1)
      | (Unsettled, fx, s1) \<Rightarrow> (Unsettled, fx, s1)
      | (Resolved status, fx, s1) \<Rightarrow>
          (let fx1 = fx @ [SetTimeout (popup_delay status)] in
           case pathFromAddress env withAccount s1 of
             (Inl e, s2) \<Rightarrow> (Unsettled, fx1, s2)
           | (Inr path, s2) \<Rightarrow>
               (let fx2 = fx1 @ [SignMessage path message] in
                case sdev of
                  Failure e \<Rightarrow> (Rejected (Thrown (Error (describe_rejection e))), fx2, s2)
                | Reply None \<Rightarrow>
                    (Rejected (Thrown (Error
                       (describe_rejection (Thrown (TypeError undefined_payload_message))))),
                     fx2, s2)
                | Reply (Some signature) \<Rightarrow>
                    (Resolved (''0x'' @ toString_hex signature), fx2, s2))))"

definition signMessage ::
  "env \<Rightarrow> string \<Rightarrow> string \<Rightarrow> xpub_response reply \<Rightarrow> 8 word list option reply \<Rightarrow> keyring
     \<Rightarrow> string result" where
  "signMessage env withAccount d dev sdev s = signPersonalMessage env withAccount d dev sdev s"

subsection \<open>A test double for the libraries and the device\<close>

text \<open>
  Concrete library functions for evaluating the methods: checksumming leaves the string
  as it is, the address derived for a path is the path itself, and the sender recovered
  from a signed transaction is the hex form of its \<open>r\<close>.
\<close>

definition mock_sender :: "tx \<Rightarrow> js_error + string" where
  "mock_sender t =
     (case tx_r (toJSON t) of
        None \<Rightarrow> Inl (Error ''unsigned'')
      | Some bs \<Rightarrow> Inr (toString_hex bs))"

definition mock_env :: env where
  "mock_env =
     \<lparr> toChecksumAddress = (\<lambda>a. Inr a),
       derive_address = (\<lambda>h p. Inr p),
       fromTxData = (\<lambda>d c. Inr \<lparr>toJSON = d, txtype = 2, common = c\<rparr>),
       getSenderAddress = mock_sender \<rparr>"

definition mock_tx :: tx where
  "mock_tx =
     \<lparr> toJSON =
         \<lparr> chainId = Some ''0x1'', nonce = Some ''0x0'', maxPriorityFeePerGas = Some ''0x1'',
           maxFeePerGas = Some ''0x2'', gasLimit = Some ''0x5208'', tx_to = Some ''0xbeef'',
           tx_value = Some ''0x0'', accessList = None, tx_data = Some ''0x'',
           gasPrice = None, tx_type = None, tx_r = None, tx_s = None, tx_v = None \<rparr>,
       txtype = 2, common = ''mainnet'' \<rparr>"

text \<open>A keyring whose \<open>hdk\<close> holds a public key, as after a handshake that stored one.\<close>

definition unlocked_keyring :: keyring where
  "unlocked_keyring =
     (constructor no_opts)\<lparr>hdk := Some \<lparr>publicKey = Some ''02ab'', chainCode = Some ''cd''\<rparr>\<rparr>"

text \<open>A keyring whose \<open>hdk\<close> is an HD key object without a public key yet.\<close>

definition keyless_keyring :: keyring where
  "keyless_keyring = (constructor no_opts)\<lparr>hdk := Some \<lparr>publicKey = None, chainCode = None\<rparr>\<rparr>"

text \<open>The same keyring after a page listing has recorded index 3 for one address.\<close>

definition indexed_keyring :: keyring where
  "indexed_keyring = unlocked_keyring\<lparr>paths := [''0xm/3'' \<mapsto> 3]\<rparr>"

text \<open>A keyring constructed from options that list two accounts.\<close>

definition restored_keyring :: keyring where
  "restored_keyring = constructor (no_opts\<lparr>o_accounts := Some [''0xm/0'', ''0xm/1'']\<rparr>)"

text \<open>
  A caller that issues page requests one after the other, each with the device's answer;
  \<open>None\<close> when one of them has no result.
\<close>

datatype page_request = First | Next | Previous

definition request_page ::
  "env \<Rightarrow> page_request \<times> xpub_response reply \<Rightarrow> keyring \<Rightarrow> keyring option" where
  "request_page env rq s =
     map_option after
       (case fst rq of
          First \<Rightarrow> getFirstPage env (snd rq) s
        | Next \<Rightarrow> getNextPage env (snd rq) s
        | Previous \<Rightarrow> getPreviousPage env (snd rq) s)"

fun request_pages ::
  "env \<Rightarrow> (page_request \<times> xpub_response reply) list \<Rightarrow> keyring \<Rightarrow> keyring option" where
  "request_pages env [] s = Some s"
| "request_pages env (rq # rqs) s =
     (case request_page env rq s of
        None \<Rightarrow> None
      | Some k \<Rightarrow> request_pages env rqs k)"

text \<open>Keyrings constructed from options whose \<open>page\<close> is 1.5 and \<open>2 ^ 53\<close>.\<close>

definition fractional_keyring :: keyring where
  "fractional_keyring = constructor (no_opts\<lparr>o_page := Some (Finite (3 / 2))\<rparr>)"

definition large_keyring :: keyring where
  "large_keyring = constructor (no_opts\<lparr>o_page := Some (Finite (2 ^ 53))\<rparr>)"

section \<open>Properties\<close>

subsection \<open>Unlocking\<close>

lemma constructor_hdk: "hdk (constructor os) = None"
  by (simp add: constructor_def deserialize_def)

lemma constructor_locked: "\<not> isUnlocked (constructor os)"
  by (simp add: isUnlocked_def constructor_hdk)

lemma constructor_no_opts_hdPath: "hdPath (constructor no_opts) = ''m/44'/60'/0'/0/0''"
  by (simp add: constructor_def deserialize_def no_opts_def string_or_def hdPathString_def)

text \<open>
  Claim C4 (calling \<open>unlock()\<close> twice on a locked session whose handshake succeeds gives
  "just unlocked", then "already unlocked", with one handshake, and stores the key
  material). On a keyring as the constructor builds it, \<open>hdk\<close> is \<open>null\<close>: the
  assignment of the public key throws, both calls are rejected with the description of
  the \<open>TypeError\<close>, each call makes a handshake, and the keyring stays locked.
\<close>

theorem unlock_twice_on_new_keyring:
  "let s0 = constructor os;
       r1 = unlock (Reply (XpubSuccess pk cc)) s0;
       r2 = unlock (Reply (XpubSuccess pk cc)) (after r1) in
     outcome r1 = Rejected (Thrown (Error
        ''TypeError: Cannot set properties of null (setting 'publicKey')''))
   \<and> outcome r2 = outcome r1
   \<and> effects r1 @ effects r2 = [GetXPublickey (hdPath s0), GetXPublickey (hdPath s0)]
   \<and> after r1 = s0 \<and> after r2 = s0 \<and> \<not> isUnlocked s0"
  by (simp add: Let_def unlock_def isUnlocked_def constructor_hdk outcome_def effects_def
      after_def null_hdk_message_def error_toString_def or_unknown_def)

text \<open>
  Claim C6, as stated (a transport failure of \<open>unlock\<close> is of a kind distinguishable
  from a failure the device reports), fails: a device that reports the message
  \<open>boom\<close> and a transport that rejects with the string \<open>boom\<close> give the same result.
\<close>

theorem unlock_failure_kinds_counterexample:
  "unlock (Reply (XpubFailure (Some ''boom''))) (constructor no_opts)
     = unlock (Failure (Str ''boom'')) (constructor no_opts)"
  by (simp add: unlock_def isUnlocked_def constructor_hdk or_unknown_def)

text \<open>
  Claim C6, amended: on a locked keyring both failures reject with a plain \<open>Error\<close>
  and leave the keyring as it was. A failure the device reports carries the reported
  message, or \<open>Unknown error\<close> when there is none or it is empty; a transport failure
  carries the description of what was thrown (its \<open>toString()\<close>), or \<open>Unknown error\<close>
  when that is missing or empty.
\<close>

theorem unlock_failures:
  "\<not> isUnlocked s \<Longrightarrow>
     unlock (Reply (XpubFailure None)) s
       = (Rejected (Thrown (Error ''Unknown error'')), [GetXPublickey (hdPath s)], s)
   \<and> unlock (Reply (XpubFailure (Some m))) s
       = (Rejected (Thrown (Error (if m = [] then ''Unknown error'' else m))),
          [GetXPublickey (hdPath s)], s)
   \<and> unlock (Failure e) s
       = (Rejected (Thrown (Error (describe_rejection e))), [GetXPublickey (hdPath s)], s)
   \<and> describe_rejection (Thrown (Error d)) = (if d = [] then ''Error'' else ''Error: '' @ d)
   \<and> describe_rejection (Str d) = (if d = [] then ''Unknown error'' else d)
   \<and> describe_rejection Undefined = ''Unknown error''"
  by (simp add: unlock_def or_unknown_def error_toString_def)

theorem unlock_failures_witness:
  "\<not> isUnlocked (constructor no_opts)
   \<and> unlock (Reply (XpubFailure (Some ''rejected by user''))) (constructor no_opts)
       = (Rejected (Thrown (Error ''rejected by user'')), [GetXPublickey ''m/44'/60'/0'/0/0''],
          constructor no_opts)
   \<and> unlock (Failure (Thrown (Error ''timeout''))) (constructor no_opts)
       = (Rejected (Thrown (Error ''Error: timeout'')), [GetXPublickey ''m/44'/60'/0'/0/0''],
          constructor no_opts)"
proof -
  have locked: "\<not> isUnlocked (constructor no_opts)"
    by (rule constructor_locked)
  show ?thesis
    using locked constructor_no_opts_hdPath
      unlock_failures [OF locked, of "''rejected by user''" "Thrown (Error ''timeout'')" "''timeout''"]
    by simp
qed

subsection \<open>Signing a transaction\<close>

text \<open>
  Claim C1: once the device has answered, \<open>signTransaction\<close> recovers the sender of the
  reconstructed transaction, checksums it and the address argument, and compares them.
  Whenever it resolves, the artifact is the reconstructed transaction and both checksummed
  addresses are equal; whenever the two are computed and differ, it rejects with the error
  \<open>signature doesn't match the right address\<close>. The keyring is not changed.
\<close>

theorem signTransaction_signer_check:
  "signTransaction env addr t (Reply signature) s = (out, fx, s') \<Longrightarrow>
     (\<forall>art. out = Resolved art \<longrightarrow>
        fromTxData env (with_signature (txData_of t) signature) (common t) = Inr art
        \<and> (\<exists>sender a. getSenderAddress env art = Inr sender
              \<and> toChecksumAddress env (addHexPrefix sender) = Inr a
              \<and> toChecksumAddress env addr = Inr a))
   \<and> (\<forall>art sender a b.
        fromTxData env (with_signature (txData_of t) signature) (common t) = Inr art
        \<and> getSenderAddress env art = Inr sender
        \<and> toChecksumAddress env (addHexPrefix sender) = Inr a
        \<and> toChecksumAddress env addr = Inr b \<and> a \<noteq> b
        \<longrightarrow> out = Rejected (Thrown (Error ''signature doesn't match the right address'')))
   \<and> s' = s"
  by (auto simp: signTransaction_def Let_def mismatch_message_def split: sum.splits if_splits)

lemma mock_signed:
  "fromTxData mock_env (with_signature (txData_of mock_tx) [0xab, 0xcd]) (common mock_tx) = Inr art
   \<Longrightarrow> getSenderAddress mock_env art = Inr ''abcd''"
  by (auto simp: mock_env_def mock_sender_def with_signature_def toString_hex_def
      hex_byte_def hex_char_def)

theorem signTransaction_signer_check_witness:
  "outcome (signTransaction mock_env ''0x1234'' mock_tx (Reply [0xab, 0xcd]) unlocked_keyring)
     = Rejected (Thrown (Error ''signature doesn't match the right address''))
   \<and> (\<exists>art. outcome (signTransaction mock_env ''0xabcd'' mock_tx (Reply [0xab, 0xcd]) unlocked_keyring)
          = Resolved art \<and> getSenderAddress mock_env art = Inr ''abcd'')"
proof -
  let ?bad = "signTransaction mock_env ''0x1234'' mock_tx (Reply [0xab, 0xcd]) unlocked_keyring"
  let ?good = "signTransaction mock_env ''0xabcd'' mock_tx (Reply [0xab, 0xcd]) unlocked_keyring"
  let ?art = "\<lparr>toJSON = with_signature (txData_of mock_tx) [0xab, 0xcd], txtype = 2,
               common = common mock_tx\<rparr>"
  have bad: "?bad = (outcome ?bad, effects ?bad, after ?bad)"
    by (simp add: outcome_def effects_def after_def)
  have good: "?good = (outcome ?good, effects ?good, after ?good)"
    by (simp add: outcome_def effects_def after_def)
  have resolved: "\<exists>art. outcome ?good = Resolved art"
    by (simp add: outcome_def signTransaction_def Let_def mock_env_def mock_sender_def
        with_signature_def toString_hex_def hex_byte_def hex_char_def addHexPrefix_def)
  have made: "fromTxData mock_env (with_signature (txData_of mock_tx) [0xab, 0xcd])
      (common mock_tx) = Inr ?art"
    by (simp add: mock_env_def)
  have sender: "getSenderAddress mock_env ?art = Inr ''abcd''"
    by (rule mock_signed) (simp add: mock_env_def)
  have cs: "toChecksumAddress mock_env x = Inr x" for x
    by (simp add: mock_env_def)
  from signTransaction_signer_check [OF bad] made sender
  have "outcome ?bad = Rejected (Thrown (Error ''signature doesn't match the right address''))"
    by (simp add: cs addHexPrefix_def)
  moreover from signTransaction_signer_check [OF good] resolved made sender
  have "\<exists>art. outcome ?good = Resolved art \<and> getSenderAddress mock_env art = Inr ''abcd''"
    by auto
  ultimately show ?thesis by simp
qed

subsection \<open>Serialization\<close>

text \<open>
  Claim C3, as stated (\<open>deserialize(serialize(s))\<close> reproduces \<open>knownAccounts\<close>,
  \<open>pathIndex\<close>, \<open>page\<close> and \<open>perPage\<close> and is locked), fails: a keyring constructed from
  the snapshot of a keyring that has an index recorded has no index recorded, and
  \<open>deserialize\<close> called on an unlocked keyring leaves it unlocked.
\<close>

theorem roundtrip_counterexample:
  "paths indexed_keyring ''0xm/3'' = Some 3
   \<and> paths (constructor (serialize indexed_keyring)) ''0xm/3'' = None
   \<and> isUnlocked indexed_keyring
   \<and> isUnlocked (deserialize (serialize indexed_keyring) indexed_keyring)"
  by (simp add: indexed_keyring_def unlocked_keyring_def constructor_def deserialize_def
      isUnlocked_def)

text \<open>
  Claim C3, amended: deserializing the snapshot of \<open>s\<close> into any keyring \<open>k\<close> reproduces
  the accounts and the page of \<open>s\<close>, its \<open>perPage\<close> unless that is 0 (then 5) and its
  \<open>hdPath\<close> unless that is empty (then the default path); it leaves the path index, the
  account cursor and the key material of \<open>k\<close> as they are. A keyring constructed from
  the snapshot therefore has the same accounts, page and \<open>perPage\<close>, an empty path index,
  cursor 0, and is locked.
\<close>

theorem roundtrip:
  "accounts (deserialize (serialize s) k) = accounts s
   \<and> page (deserialize (serialize s) k) = page s
   \<and> perPage (deserialize (serialize s) k) = (if perPage s = 0 then 5 else perPage s)
   \<and> hdPath (deserialize (serialize s) k) = (if hdPath s = [] then hdPathString else hdPath s)
   \<and> paths (deserialize (serialize s) k) = paths k
   \<and> unlockedAccount (deserialize (serialize s) k) = unlockedAccount k
   \<and> hdk (deserialize (serialize s) k) = hdk k
   \<and> accounts (constructor (serialize s)) = accounts s
   \<and> page (constructor (serialize s)) = page s
   \<and> perPage (constructor (serialize s)) = (if perPage s = 0 then 5 else perPage s)
   \<and> paths (constructor (serialize s)) = Map.empty
   \<and> unlockedAccount (constructor (serialize s)) = 0
   \<and> \<not> isUnlocked (constructor (serialize s))"
  by (simp add: constructor_def deserialize_def serialize_def isUnlocked_def
      string_or_def number_or_def list_or_def)

subsection \<open>Listing the accounts\<close>

text \<open>
  Claim C8, as stated (\<open>getAccounts\<close> leaves \<open>knownAccounts\<close> unchanged and returns it),
  fails: on a keyring constructed with two accounts, \<open>getAccounts\<close> asks the device for
  the address of \<open>hdPath\<close>, returns that single address and stores it as the account list.
\<close>

theorem getAccounts_counterexample:
  "accounts restored_keyring = [''0xm/0'', ''0xm/1'']
   \<and> accounts (after (getAccounts (Reply ''0xbeef'') restored_keyring)) = [''0xbeef'']
   \<and> outcome (getAccounts (Reply ''0xbeef'') restored_keyring) = Resolved [''0xbeef'']
   \<and> effects (getAccounts (Reply ''0xbeef'') restored_keyring) = [GetAddress ''m/44'/60'/0'/0/0'']"
  by (simp add: restored_keyring_def getAccounts_def constructor_def deserialize_def no_opts_def
      list_or_def string_or_def hdPathString_def after_def outcome_def effects_def)

text \<open>
  Claim C8, amended: \<open>getAccounts\<close> makes one device call for the address of \<open>hdPath\<close>;
  when the device answers \<open>a\<close>, it replaces the account list by \<open>[a]\<close> and returns
  \<open>[a]\<close>, leaving the path index, \<open>page\<close>, \<open>perPage\<close> and the account cursor unchanged;
  when the call fails, it rejects with the failure and changes nothing.
\<close>

theorem getAccounts_replaces_accounts:
  "outcome (getAccounts (Reply a) s) = Resolved [a]
   \<and> effects (getAccounts (Reply a) s) = [GetAddress (hdPath s)]
   \<and> after (getAccounts (Reply a) s) = s\<lparr>accounts := [a]\<rparr>
   \<and> paths (after (getAccounts (Reply a) s)) = paths s
   \<and> page (after (getAccounts (Reply a) s)) = page s
   \<and> perPage (after (getAccounts (Reply a) s)) = perPage s
   \<and> unlockedAccount (after (getAccounts (Reply a) s)) = unlockedAccount s
   \<and> getAccounts (Failure e) s = (Rejected e, [GetAddress (hdPath s)], s)"
  by (simp add: getAccounts_def after_def outcome_def effects_def)

subsection \<open>Frame of unlocking and of address derivation\<close>

lemma unlock_frame:
  "unlock dev s = (r, fx, s1) \<Longrightarrow>
     accounts s1 = accounts s \<and> page s1 = page s \<and> perPage s1 = perPage s
     \<and> paths s1 = paths s \<and> unlockedAccount s1 = unlockedAccount s \<and> hdPath s1 = hdPath s"
  by (auto simp: unlock_def split: if_splits reply.splits xpub_response.splits option.splits)

lemma unlock_status:
  "unlock dev s = (Resolved status, fx, s1) \<Longrightarrow>
     (isUnlocked s \<longrightarrow> status = ''already unlocked'' \<and> fx = [] \<and> s1 = s)
   \<and> (\<not> isUnlocked s \<longrightarrow> status = ''just unlocked'' \<and> fx = [GetXPublickey (hdPath s)])"
  by (auto simp: unlock_def split: if_splits reply.splits xpub_response.splits option.splits)

lemma addressFromIndex_hdk:
  "hdk s' = hdk s \<Longrightarrow> addressFromIndex env pb i s' = addressFromIndex env pb i s"
  by (simp add: addressFromIndex_def)

subsection \<open>Resolving the path of an address\<close>

lemma scan_found:
  "i \<le> k \<Longrightarrow> k < MAX_INDEX \<Longrightarrow>
   addressFromIndex env pathBase k s = Inr c \<Longrightarrow>
   (\<forall>j. i \<le> j \<and> j < k \<longrightarrow> (\<exists>a. addressFromIndex env pathBase j s = Inr a \<and> a \<noteq> c)) \<Longrightarrow>
   scan env c i s = Inr (Some k)"
proof (induction env c i s rule: scan.induct)
  case (1 env c i s)
  show ?case
  proof (cases "i = k")
    case True
    with "1.prems" show ?thesis
      by (subst scan.simps) simp
  next
    case False
    with "1.prems" have lt: "i < k" by simp
    with "1.prems" obtain a where a: "addressFromIndex env pathBase i s = Inr a" "a \<noteq> c"
      by blast
    from lt "1.prems" have "i < MAX_INDEX" by simp
    moreover have "scan env c (i + 1) s = Inr (Some k)"
      using "1.IH" [OF \<open>i < MAX_INDEX\<close> a(1)] a(2) lt "1.prems" by auto
    ultimately show ?thesis
      using a by (subst scan.simps) auto
  qed
qed

lemma scan_exhausted:
  "(\<forall>j. i \<le> j \<and> j < MAX_INDEX \<longrightarrow> (\<exists>a. addressFromIndex env pathBase j s = Inr a \<and> a \<noteq> c)) \<Longrightarrow>
   scan env c i s = Inr None"
proof (induction env c i s rule: scan.induct)
  case (1 env c i s)
  show ?case
  proof (cases "i < MAX_INDEX")
    case True
    with "1.prems" obtain a where a: "addressFromIndex env pathBase i s = Inr a" "a \<noteq> c"
      by blast
    have "scan env c (i + 1) s = Inr None"
      using "1.IH" [OF True a(1)] a(2) "1.prems" by auto
    then show ?thesis
      using True a by (subst scan.simps) auto
  next
    case False
    then show ?thesis by (subst scan.simps) simp
  qed
qed

lemma mock_addressFromIndex:
  "hdk s = Some h \<Longrightarrow> addressFromIndex mock_env pathBase i s = Inr (''0xm/'' @ show_int i)"
  by (simp add: addressFromIndex_def mock_env_def pathBase_def)

lemma show_int_below_3: "0 \<le> j \<Longrightarrow> j < 3 \<Longrightarrow> show_int j \<noteq> ''3''"
proof -
  assume "0 \<le> j" "j < 3"
  then have "j = 0 \<or> j = 1 \<or> j = 2" by arith
  then show ?thesis
    by (auto simp: show_int_def show_nat.simps digit_char_def)
qed

lemma show_int_3: "show_int 3 = ''3''"
  by (simp add: show_int_def show_nat.simps digit_char_def)

lemma unlocked_keyring_fields:
  "hdk unlocked_keyring = Some \<lparr>publicKey = Some ''02ab'', chainCode = Some ''cd''\<rparr>"
  "paths unlocked_keyring = Map.empty"
  "hdPath unlocked_keyring = ''m/44'/60'/0'/0/0''"
  "accounts unlocked_keyring = []"
  "unlockedAccount unlocked_keyring = 0"
  "isUnlocked unlocked_keyring"
  by (simp_all add: unlocked_keyring_def constructor_def deserialize_def no_opts_def
      string_or_def list_or_def number_or_def hdPathString_def isUnlocked_def)

lemma scan_example:
  "pathFromAddress mock_env ''0xm/3'' unlocked_keyring = (Inr ''m/44'/60'/0'/0/0/3'', unlocked_keyring)"
proof -
  have a: "addressFromIndex mock_env pathBase j unlocked_keyring = Inr (''0xm/'' @ show_int j)" for j
    by (rule mock_addressFromIndex) (rule unlocked_keyring_fields)
  have "scan mock_env ''0xm/3'' 0 unlocked_keyring = Inr (Some 3)"
    by (rule scan_found) (simp_all add: MAX_INDEX_def a show_int_3 show_int_below_3)
  then show ?thesis
    by (simp add: pathFromAddress_def mock_env_def unlocked_keyring_fields show_int_3)
qed

lemma unknown_example:
  "pathFromAddress mock_env ''0xdead'' unlocked_keyring = (Inl (Error ''Unknown address''), unlocked_keyring)"
proof -
  have a: "addressFromIndex mock_env pathBase j unlocked_keyring = Inr (''0xm/'' @ show_int j)" for j
    by (rule mock_addressFromIndex) (rule unlocked_keyring_fields)
  have "scan mock_env ''0xdead'' 0 unlocked_keyring = Inr None"
    by (rule scan_exhausted) (simp add: a)
  then show ?thesis
    by (simp add: pathFromAddress_def mock_env_def unlocked_keyring_fields)
qed

lemma indexed_example:
  "pathFromAddress mock_env ''0xm/3'' indexed_keyring = (Inr ''m/44'/60'/0'/0/0/3'', indexed_keyring)"
  by (simp add: pathFromAddress_def mock_env_def indexed_keyring_def unlocked_keyring_fields show_int_3)

text \<open>
  Claim C7, as stated (a successful scan caches the index it found in \<open>pathIndex\<close>),
  fails: with an empty index the scan finds the address at index 3 and returns its path,
  and the index is still empty afterwards, also after a \<open>signPersonalMessage\<close> that
  resolved the path this way.
\<close>

theorem pathFromAddress_cache_counterexample:
  "paths unlocked_keyring ''0xm/3'' = None
   \<and> fst (pathFromAddress mock_env ''0xm/3'' unlocked_keyring) = Inr ''m/44'/60'/0'/0/0/3''
   \<and> paths (snd (pathFromAddress mock_env ''0xm/3'' unlocked_keyring)) ''0xm/3'' = None
   \<and> effects (signPersonalMessage mock_env ''0xm/3'' ''0x6869'' (Reply (XpubSuccess ''02ab'' ''cd''))
        (Reply (Some [0x01])) unlocked_keyring)
       = [SetTimeout 0, SignMessage ''m/44'/60'/0'/0/0/3'' ''0x6869'']
   \<and> paths (after (signPersonalMessage mock_env ''0xm/3'' ''0x6869'' (Reply (XpubSuccess ''02ab'' ''cd''))
        (Reply (Some [0x01])) unlocked_keyring)) ''0xm/3'' = None"
  by (simp add: scan_example unlocked_keyring_fields signPersonalMessage_def unlock_def
      effects_def after_def popup_delay_def)

text \<open>
  Claim C7, amended: \<open>_pathFromAddress\<close> checksums its argument and looks the result up
  in \<open>paths\<close>; a recorded index gives the path \<open>hdPath/index\<close>. Without one it derives
  the addresses of the indices 0, 1, ... below \<open>MAX_INDEX\<close> = 1000 in order and returns
  the path of the first index whose address equals the checksummed argument; when no
  index below 1000 matches it throws \<open>Error('Unknown address')\<close>. In every case the
  keyring, and so \<open>paths\<close>, is left as it was.
\<close>

theorem pathFromAddress_resolution:
  "toChecksumAddress env addr = Inr c \<Longrightarrow>
     (\<forall>i. paths s c = Some i \<longrightarrow>
        pathFromAddress env addr s = (Inr (hdPath s @ ''/'' @ show_int i), s))
   \<and> (\<forall>k. paths s c = None \<and> 0 \<le> k \<and> k < 1000
          \<and> addressFromIndex env pathBase k s = Inr c
          \<and> (\<forall>j. 0 \<le> j \<and> j < k \<longrightarrow> (\<exists>a. addressFromIndex env pathBase j s = Inr a \<and> a \<noteq> c))
        \<longrightarrow> pathFromAddress env addr s = (Inr (hdPath s @ ''/'' @ show_int k), s))
   \<and> (paths s c = None
        \<and> (\<forall>j. 0 \<le> j \<and> j < 1000 \<longrightarrow> (\<exists>a. addressFromIndex env pathBase j s = Inr a \<and> a \<noteq> c))
        \<longrightarrow> pathFromAddress env addr s = (Inl (Error ''Unknown address''), s))
   \<and> snd (pathFromAddress env addr s) = s"
proof (intro conjI allI impI)
  assume c: "toChecksumAddress env addr = Inr c"
  show "pathFromAddress env addr s = (Inr (hdPath s @ ''/'' @ show_int i), s)"
    if "paths s c = Some i" for i
    using c that by (simp add: pathFromAddress_def)
  show "pathFromAddress env addr s = (Inr (hdPath s @ ''/'' @ show_int k), s)"
    if h: "paths s c = None \<and> 0 \<le> k \<and> k < 1000
          \<and> addressFromIndex env pathBase k s = Inr c
          \<and> (\<forall>j. 0 \<le> j \<and> j < k \<longrightarrow> (\<exists>a. addressFromIndex env pathBase j s = Inr a \<and> a \<noteq> c))" for k
  proof -
    from h have "scan env c 0 s = Inr (Some k)"
      by (intro scan_found) (auto simp: MAX_INDEX_def)
    with c h show ?thesis by (simp add: pathFromAddress_def)
  qed
  show "pathFromAddress env addr s = (Inl (Error ''Unknown address''), s)"
    if h: "paths s c = None
        \<and> (\<forall>j. 0 \<le> j \<and> j < 1000 \<longrightarrow> (\<exists>a. addressFromIndex env pathBase j s = Inr a \<and> a \<noteq> c))"
  proof -
    from h have "scan env c 0 s = Inr None"
      by (intro scan_exhausted) (auto simp: MAX_INDEX_def)
    with c h show ?thesis by (simp add: pathFromAddress_def)
  qed
  show "snd (pathFromAddress env addr s) = s"
    by (simp add: pathFromAddress_def split: sum.splits option.splits)
qed

theorem pathFromAddress_resolution_witness:
  "pathFromAddress mock_env ''0xm/3'' indexed_keyring = (Inr ''m/44'/60'/0'/0/0/3'', indexed_keyring)
   \<and> pathFromAddress mock_env ''0xm/3'' unlocked_keyring = (Inr ''m/44'/60'/0'/0/0/3'', unlocked_keyring)
   \<and> pathFromAddress mock_env ''0xdead'' unlocked_keyring = (Inl (Error ''Unknown address''), unlocked_keyring)"
proof -
  have cs: "toChecksumAddress mock_env x = Inr x" for x
    by (simp add: mock_env_def)
  have ix: "paths indexed_keyring ''0xm/3'' = Some 3" "hdPath indexed_keyring = ''m/44'/60'/0'/0/0''"
    by (simp_all add: indexed_keyring_def unlocked_keyring_fields)
  have a: "addressFromIndex mock_env pathBase j unlocked_keyring = Inr (''0xm/'' @ show_int j)" for j
    by (rule mock_addressFromIndex) (rule unlocked_keyring_fields)
  have below: "\<forall>j. 0 \<le> j \<and> j < 3 \<longrightarrow>
      (\<exists>b. addressFromIndex mock_env pathBase j unlocked_keyring = Inr b \<and> b \<noteq> ''0xm/3'')"
    by (simp add: a show_int_below_3)
  have none: "\<forall>j. 0 \<le> j \<and> j < 1000 \<longrightarrow>
      (\<exists>b. addressFromIndex mock_env pathBase j unlocked_keyring = Inr b \<and> b \<noteq> ''0xdead'')"
    by (simp add: a)
  have at3: "addressFromIndex mock_env pathBase 3 unlocked_keyring = Inr ''0xm/3''"
    by (simp add: a show_int_3)
  from pathFromAddress_resolution [of mock_env "''0xm/3''" "''0xm/3''" indexed_keyring, OF cs] ix
  have 1: "pathFromAddress mock_env ''0xm/3'' indexed_keyring
      = (Inr ''m/44'/60'/0'/0/0/3'', indexed_keyring)"
    by (simp add: show_int_3)
  from pathFromAddress_resolution [of mock_env "''0xm/3''" "''0xm/3''" unlocked_keyring, OF cs,
      THEN conjunct2, THEN conjunct1, THEN spec, of 3] below at3
  have 2: "pathFromAddress mock_env ''0xm/3'' unlocked_keyring
      = (Inr ''m/44'/60'/0'/0/0/3'', unlocked_keyring)"
    by (simp add: unlocked_keyring_fields show_int_3)
  from pathFromAddress_resolution [of mock_env "''0xdead''" "''0xdead''" unlocked_keyring, OF cs] none
  have 3: "pathFromAddress mock_env ''0xdead'' unlocked_keyring
      = (Inl (Error ''Unknown address''), unlocked_keyring)"
    by (simp add: unlocked_keyring_fields)
  from 1 2 3 show ?thesis by simp
qed

lemma new_keyring_example:
  "pathFromAddress mock_env ''0xdead'' (constructor no_opts)
     = (Inl (TypeError ''Cannot read properties of null (reading 'derive')''), constructor no_opts)"
proof -
  have "scan mock_env ''0xdead'' 0 (constructor no_opts) = Inl (TypeError null_derive_message)"
    by (subst scan.simps) (simp add: MAX_INDEX_def addressFromIndex_def constructor_hdk)
  then show ?thesis
    by (simp add: pathFromAddress_def mock_env_def constructor_def deserialize_def
        null_derive_message_def)
qed

text \<open>
  Claim C2 (\<open>signTransaction\<close> resolves the path of its address argument, fails for an
  unresolvable address, and asks the device to sign for the resolved path). The device
  is always asked to sign for \<open>hdPath\<close>, whatever the address. Where the index records
  3 for the address, so that its path is \<open>hdPath/3\<close>, the request is for \<open>hdPath\<close>;
  for an address that does not resolve, on an unlocked keyring as on a newly constructed
  one, the device is asked all the same and the transaction it signs is returned.
\<close>

theorem signTransaction_ignores_address_path:
  "effects (signTransaction env addr t dev s)
     = [SignTransaction (hdPath s) (request_of (txData_of t))]
   \<and> pathFromAddress mock_env ''0xm/3'' indexed_keyring
       = (Inr ''m/44'/60'/0'/0/0/3'', indexed_keyring)
   \<and> effects (signTransaction mock_env ''0xm/3'' mock_tx (Reply [0xde, 0xad]) indexed_keyring)
       = [SignTransaction ''m/44'/60'/0'/0/0'' (request_of (txData_of mock_tx))]
   \<and> pathFromAddress mock_env ''0xdead'' unlocked_keyring
       = (Inl (Error ''Unknown address''), unlocked_keyring)
   \<and> signTransaction mock_env ''0xdead'' mock_tx (Reply [0xde, 0xad]) unlocked_keyring
       = (Resolved \<lparr>toJSON = with_signature (txData_of mock_tx) [0xde, 0xad], txtype = 2,
                    common = ''mainnet''\<rparr>,
          [SignTransaction ''m/44'/60'/0'/0/0'' (request_of (txData_of mock_tx))],
          unlocked_keyring)
   \<and> pathFromAddress mock_env ''0xdead'' (constructor no_opts)
       = (Inl (TypeError ''Cannot read properties of null (reading 'derive')''),
          constructor no_opts)
   \<and> signTransaction mock_env ''0xdead'' mock_tx (Reply [0xde, 0xad]) (constructor no_opts)
       = (Resolved \<lparr>toJSON = with_signature (txData_of mock_tx) [0xde, 0xad], txtype = 2,
                    common = ''mainnet''\<rparr>,
          [SignTransaction ''m/44'/60'/0'/0/0'' (request_of (txData_of mock_tx))],
          constructor no_opts)"
proof -
  have 0: "effects (signTransaction env addr t dev s)
     = [SignTransaction (hdPath s) (request_of (txData_of t))]"
    by (simp add: signTransaction_def Let_def effects_def split: reply.splits sum.splits)
  have p: "hdPath indexed_keyring = ''m/44'/60'/0'/0/0''"
    by (simp add: indexed_keyring_def unlocked_keyring_fields)
  have 1: "effects (signTransaction mock_env ''0xm/3'' mock_tx (Reply [0xde, 0xad]) indexed_keyring)
       = [SignTransaction ''m/44'/60'/0'/0/0'' (request_of (txData_of mock_tx))]"
    by (simp add: signTransaction_def Let_def effects_def p split: sum.splits)
  have 2: "signTransaction mock_env ''0xdead'' mock_tx (Reply [0xde, 0xad]) k
       = (Resolved \<lparr>toJSON = with_signature (txData_of mock_tx) [0xde, 0xad], txtype = 2,
                    common = ''mainnet''\<rparr>,
          [SignTransaction (hdPath k) (request_of (txData_of mock_tx))], k)" for k
    by (simp add: signTransaction_def Let_def mock_env_def mock_sender_def with_signature_def
        toString_hex_def hex_byte_def hex_char_def addHexPrefix_def mock_tx_def)
  from 0 1 2 [of unlocked_keyring] 2 [of "constructor no_opts"]
    indexed_example unknown_example new_keyring_example
  show ?thesis
    by (simp add: unlocked_keyring_fields constructor_no_opts_hdPath)
qed

subsection \<open>Adding accounts\<close>





lemma show_int_0: "show_int 0 = ''0''"
  by (simp add: show_int_def show_nat.simps digit_char_def)


lemma unlock_keyless_keyring:
  "unlock (Reply (XpubSuccess ''02ab'' ''cd'')) keyless_keyring
     = (Resolved ''just unlocked'', [GetXPublickey ''m/44'/60'/0'/0/0''], unlocked_keyring)"
  by (simp add: unlock_def keyless_keyring_def unlocked_keyring_def isUnlocked_def
      constructor_no_opts_hdPath)

lemma unlock_unlocked_keyring:
  "unlock dev unlocked_keyring = (Resolved ''already unlocked'', [], unlocked_keyring)"
  by (simp add: unlock_def unlocked_keyring_fields)




subsection \<open>Signing a message\<close>

text \<open>
  Claim C9: when the \<open>unlock\<close> inside \<open>signPersonalMessage\<close> resolves and the path of the
  account resolves, the method sets a timer and, from the timer, makes the device signing
  call; the timer's delay is \<open>DELAY_BETWEEN_POPUPS\<close> = 1000 ms when \<open>unlock\<close> resolved
  with "just unlocked" (the keyring was locked and a handshake was made) and 0 when it
  resolved with "already unlocked".
\<close>

theorem signPersonalMessage_popup_delay:
  assumes u: "unlock dev s = (Resolved status, fx, s1)"
    and p: "pathFromAddress env withAccount s1 = (Inr path, s2)"
  shows "effects (signPersonalMessage env withAccount message dev sdev s)
       = fx @ [SetTimeout (if status = ''just unlocked'' then DELAY_BETWEEN_POPUPS else 0),
               SignMessage path message]
     \<and> DELAY_BETWEEN_POPUPS = 1000
     \<and> (\<not> isUnlocked s \<longrightarrow> status = ''just unlocked''
          \<and> effects (signPersonalMessage env withAccount message dev sdev s)
              = [GetXPublickey (hdPath s), SetTimeout 1000, SignMessage path message])
     \<and> (isUnlocked s \<longrightarrow> status = ''already unlocked''
          \<and> effects (signPersonalMessage env withAccount message dev sdev s)
              = [SetTimeout 0, SignMessage path message])"
proof -
  have e: "effects (signPersonalMessage env withAccount message dev sdev s)
       = fx @ [SetTimeout (popup_delay status), SignMessage path message]"
    using u p
    by (simp add: signPersonalMessage_def Let_def effects_def split: reply.splits option.splits)
  from unlock_status [OF u] e show ?thesis
    by (auto simp: popup_delay_def DELAY_BETWEEN_POPUPS_def)
qed

theorem signPersonalMessage_popup_delay_witness:
  "effects (signPersonalMessage mock_env ''0xm/3'' ''0x6869'' (Reply (XpubSuccess ''02ab'' ''cd''))
      (Reply (Some [0x01])) keyless_keyring)
     = [GetXPublickey ''m/44'/60'/0'/0/0'', SetTimeout 1000,
        SignMessage ''m/44'/60'/0'/0/0/3'' ''0x6869'']
   \<and> effects (signPersonalMessage mock_env ''0xm/3'' ''0x6869'' (Reply (XpubSuccess ''02ab'' ''cd''))
      (Reply (Some [0x01])) unlocked_keyring)
     = [SetTimeout 0, SignMessage ''m/44'/60'/0'/0/0/3'' ''0x6869'']"
proof -
  have k: "\<not> isUnlocked keyless_keyring" "hdPath keyless_keyring = ''m/44'/60'/0'/0/0''"
    by (simp_all add: keyless_keyring_def isUnlocked_def constructor_no_opts_hdPath)
  from signPersonalMessage_popup_delay [OF unlock_keyless_keyring scan_example,
      of "''0x6869''" "Reply (Some [0x01])"] k
  have 1: "effects (signPersonalMessage mock_env ''0xm/3'' ''0x6869''
      (Reply (XpubSuccess ''02ab'' ''cd'')) (Reply (Some [0x01])) keyless_keyring)
     = [GetXPublickey ''m/44'/60'/0'/0/0'', SetTimeout 1000,
        SignMessage ''m/44'/60'/0'/0/0/3'' ''0x6869'']"
    by simp
  from signPersonalMessage_popup_delay [OF unlock_unlocked_keyring scan_example,
      of "''0x6869''" "Reply (XpubSuccess ''02ab'' ''cd'')" "Reply (Some [0x01])"]
    unlocked_keyring_fields(6)
  have 2: "effects (signPersonalMessage mock_env ''0xm/3'' ''0x6869''
      (Reply (XpubSuccess ''02ab'' ''cd'')) (Reply (Some [0x01])) unlocked_keyring)
     = [SetTimeout 0, SignMessage ''m/44'/60'/0'/0/0/3'' ''0x6869'']"
    by simp
  from 1 2 show ?thesis by simp
qed

subsection \<open>Rounding to a double\<close>

lemma round_half_even_int [simp]: "round_half_even (of_int k) = k"
  by (simp add: round_half_even_def)

lemma round_half_even_ge_floor: "\<lfloor>x\<rfloor> \<le> round_half_even x"
  by (simp add: round_half_even_def Let_def)

lemma ilog2_int:
  assumes "0 < n"
  shows "ilog2 (of_int n) = bitlen n - 1"
proof -
  have q: "quotient_of (of_int n) = (n, 1)"
    using quotient_of_int [of n] by (simp add: Rat.of_int_def)
  from assms have b1: "1 \<le> bitlen n"
    using bitlen_eq_zero_iff [of n] bitlen_nonneg [of n] by linarith
  from bitlen_bounds [OF assms] have "2 ^ nat (bitlen n - 1) \<le> n" by simp
  then have "(of_int (2 ^ nat (bitlen n - 1)) :: rat) \<le> of_int n"
    by (simp only: of_int_le_iff)
  then have le: "(2::rat) powi (bitlen n - 1) \<le> of_int n"
    using b1 by (simp add: power_int_nonneg_exp)
  have "bitlen 1 = 1"
    by (simp add: compute_bitlen)
  with q le show ?thesis
    by (simp add: ilog2_def)
qed

lemma round_double_on_grid:
  assumes nz: "x \<noteq> 0"
    and grid: "\<bar>x\<bar> / 2 powi max (ilog2 \<bar>x\<bar> - 52) (- 1074) = of_int k"
    and fin: "\<bar>x\<bar> \<le> max_finite"
  shows "round_double x = Finite x"
proof -
  define e where "e = max (ilog2 \<bar>x\<bar> - 52) (- 1074)"
  have p: "(2::rat) powi e \<noteq> 0" by simp
  from grid have "\<bar>x\<bar> / 2 powi e = of_int k" by (simp only: e_def)
  then have y: "of_int (round_half_even (\<bar>x\<bar> / 2 powi e)) * 2 powi e = \<bar>x\<bar>"
    using p by (simp only: round_half_even_int; simp add: field_simps)
  have sg: "sgn x * \<bar>x\<bar> = x"
    by (simp add: sgn_if)
  have "round_double x =
      (let y = of_int (round_half_even (\<bar>x\<bar> / 2 powi e)) * 2 powi e in
        if max_finite < y then (if x < 0 then NegInfinity else PosInfinity)
        else Finite (sgn x * y))"
    using nz by (simp only: round_double_def e_def Let_def if_False)
  with y fin sg show ?thesis
    by (simp only: Let_def) simp
qed

lemma bitlen_pos: "0 < a \<Longrightarrow> 1 \<le> bitlen a"
  using bitlen_eq_zero_iff [of a] bitlen_nonneg [of a] by linarith

lemma round_double_int_exact:
  assumes "\<bar>n\<bar> \<le> 2 ^ 53"
  shows "round_double (of_int n) = Finite (of_int n)"
proof (cases "n = 0")
  case True
  then show ?thesis by (simp add: round_double_def)
next
  case False
  define a where "a = \<bar>n\<bar>"
  define e where "e = bitlen a - 53"
  from False have pos: "0 < a" by (simp add: a_def)
  have ax: "\<bar>of_int n :: rat\<bar> = of_int a" by (simp add: a_def)
  have "ilog2 (of_int a) = bitlen a - 1" by (rule ilog2_int [OF pos])
  then have il: "max (ilog2 (of_int a :: rat) - 52) (- 1074) = e"
    using bitlen_pos [OF pos] by (simp add: e_def)
  from assms have "a < 2 ^ nat 54" by (simp add: a_def)
  then have b54: "bitlen a \<le> 54"
    by (simp add: bitlen_le_iff_power)
  have "\<exists>k. (of_int a :: rat) / 2 powi e = of_int k"
  proof (cases "e \<le> 0")
    case True
    then have "(2::rat) powi e = 1 / 2 ^ nat (- e)"
      using power_int_minus_divide [of "2::rat" "- e"] by (simp add: power_int_nonneg_exp)
    then have "(of_int a :: rat) / 2 powi e = of_int (a * 2 ^ nat (- e))"
      by simp
    then show ?thesis ..
  next
    case False
    with b54 have L: "bitlen a = 54" and e1: "e = 1" by (simp_all add: e_def)
    from L have "2 ^ 53 \<le> a"
      using bitlen_ge_iff_power [of 54 a] by simp
    with assms have "a = 2 ^ 53" by (simp add: a_def)
    then have "(of_int a :: rat) / 2 powi e = of_int (2 ^ 52)"
      by (simp add: e1)
    then show ?thesis ..
  qed
  then obtain k where k: "\<bar>of_int n :: rat\<bar> / 2 powi max (ilog2 \<bar>of_int n :: rat\<bar> - 52) (- 1074) = of_int k"
    by (simp only: ax il) blast
  have small: "\<bar>of_int n :: rat\<bar> \<le> max_finite"
  proof -
    have "(of_int a :: rat) \<le> of_int (2 ^ 53)"
      using assms by (simp only: of_int_le_iff a_def)
    moreover have "(of_int (2 ^ 53) :: rat) \<le> max_finite"
      by (simp add: max_finite_def)
    ultimately show ?thesis by (simp only: ax)
  qed
  from False have "(of_int n :: rat) \<noteq> 0" by simp
  then show ?thesis using k small by (rule round_double_on_grid)
qed

lemma round_double_nonpos: "x \<le> 0 \<Longrightarrow> js_le (round_double x) (Finite 0)"
proof -
  assume "x \<le> 0"
  define e where "e = max (ilog2 \<bar>x\<bar> - 52) (- 1074)"
  have "0 \<le> \<bar>x\<bar> / 2 powi e" by simp
  then have "0 \<le> \<lfloor>\<bar>x\<bar> / 2 powi e\<rfloor>" by simp
  with round_half_even_ge_floor [of "\<bar>x\<bar> / 2 powi e"]
  have "0 \<le> round_half_even (\<bar>x\<bar> / 2 powi e)" by linarith
  then have "0 \<le> (of_int (round_half_even (\<bar>x\<bar> / 2 powi e)) :: rat) * 2 powi e"
    by simp
  with \<open>x \<le> 0\<close> show ?thesis
    by (auto simp: round_double_def Let_def e_def sgn_if mult_le_0_iff)
qed

lemma round_double_pos_int:
  assumes "1 \<le> n"
  shows "round_double (of_int n) = PosInfinity
     \<or> (\<exists>m\<ge>1. round_double (of_int n) = Finite (of_int m))"
proof -
  define e where "e = max (ilog2 \<bar>of_int n :: rat\<bar> - 52) (- 1074)"
  define r where "r = round_half_even (\<bar>of_int n :: rat\<bar> / 2 powi e)"
  from assms have pos: "0 < n" by simp
  have ax: "\<bar>of_int n :: rat\<bar> = of_int n" using assms by simp
  have il: "ilog2 (of_int n) = bitlen n - 1" by (rule ilog2_int [OF pos])
  have e: "e = bitlen n - 53"
    using bitlen_pos [OF pos] by (simp add: e_def ax il)
  have rd: "round_double (of_int n) =
      (if max_finite < of_int r * 2 powi e then PosInfinity else Finite (of_int r * 2 powi e))"
    using assms by (simp add: round_double_def Let_def e_def r_def sgn_if)
  have "\<exists>m\<ge>1. (of_int r :: rat) * 2 powi e = of_int m"
  proof (cases "e \<le> 0")
    case True
    then have p: "(2::rat) powi e = 1 / 2 ^ nat (- e)"
      using power_int_minus_divide [of "2::rat" "- e"] by (simp add: power_int_nonneg_exp)
    then have "(of_int n :: rat) / 2 powi e = of_int (n * 2 ^ nat (- e))"
      by simp
    then have "r = n * 2 ^ nat (- e)"
      by (simp only: r_def ax round_half_even_int)
    then have "(of_int r :: rat) * 2 powi e = of_int n"
      using p by simp
    with assms show ?thesis by blast
  next
    case False
    then have e0: "0 < e" by simp
    then have pe: "(2::rat) powi e = of_int (2 ^ nat e)"
      by (simp add: power_int_nonneg_exp)
    from bitlen_bounds [OF pos] have "2 ^ nat (bitlen n - 1) \<le> n" by simp
    moreover have "(2::int) ^ nat e \<le> 2 ^ nat (bitlen n - 1)"
      using e e0 by (intro power_increasing) simp_all
    ultimately have "2 ^ nat e \<le> n" by linarith
    then have "(of_int (2 ^ nat e) :: rat) \<le> of_int n"
      by (simp only: of_int_le_iff)
    then have "1 \<le> (of_int n :: rat) / 2 powi e"
      by (simp add: pe)
    then have "1 \<le> \<lfloor>(of_int n :: rat) / 2 powi e\<rfloor>"
      by (simp add: le_floor_iff)
    with round_half_even_ge_floor [of "(of_int n :: rat) / 2 powi e"]
    have r1: "1 \<le> r" by (simp only: r_def ax; linarith)
    have "(1::int) \<le> 2 ^ nat e" by simp
    with r1 have "1 * 1 \<le> r * 2 ^ nat e"
      by (intro mult_mono) simp_all
    then have "1 \<le> r * 2 ^ nat e" by simp
    moreover have "(of_int r :: rat) * 2 powi e = of_int (r * 2 ^ nat e)"
      by (simp add: pe)
    ultimately show ?thesis by blast
  qed
  with rd show ?thesis by auto
qed

lemma round_double_half: "round_double (1 / 2) = Finite (1 / 2)"
  by code_simp

lemma round_double_above_2_53: "round_double 9007199254740993 = Finite 9007199254740992"
  by code_simp

lemma round_double_1: "round_double 1 = Finite 1"
  using round_double_int_exact [of 1] by simp

subsection \<open>Paging\<close>

lemma js_le_zero [simp]: "js_le a 0 = js_le a (Finite 0)"
  by (simp add: zero_js_number_def)

lemma getPage_cursor_int:
  assumes "page s = Finite (of_int n)"
  shows "page (getPage_cursor 1 s) = (if n + 1 \<le> 0 then Finite 1 else round_double (of_int (n + 1)))"
    and "page (getPage_cursor (- 1) s) = (if n - 1 \<le> 0 then Finite 1 else round_double (of_int (n - 1)))"
proof -
  have step: "page (getPage_cursor (of_int d) s)
      = (if n + d \<le> 0 then Finite 1 else round_double (of_int (n + d)))" for d
  proof (cases "n + d \<le> 0")
    case True
    then have "(of_int (n + d) :: rat) \<le> 0" by (simp only: of_int_le_0_iff)
    then have "js_le (round_double (of_int (n + d))) (Finite 0)"
      by (rule round_double_nonpos)
    with True assms show ?thesis
      by (simp add: getPage_cursor_def js_add_def Let_def)
  next
    case False
    then have "1 \<le> n + d" by simp
    from round_double_pos_int [OF this]
    have "\<not> js_le (round_double (of_int (n + d))) (Finite 0)"
      by auto
    with False assms show ?thesis
      by (simp add: getPage_cursor_def js_add_def Let_def)
  qed
  from step [of 1] show "page (getPage_cursor 1 s)
      = (if n + 1 \<le> 0 then Finite 1 else round_double (of_int (n + 1)))" by simp
  from step [of "- 1"] show "page (getPage_cursor (- 1) s)
      = (if n - 1 \<le> 0 then Finite 1 else round_double (of_int (n - 1)))" by simp
qed


lemma getPage_cursor_perPage [simp]: "perPage (getPage_cursor d s) = perPage s"
  by (simp add: getPage_cursor_def Let_def)

lemma getPage_cursor_floor:
  assumes "page s = PosInfinity \<or> (\<exists>n. page s = Finite (of_int n))"
    and "d = 1 \<or> d = - 1"
  shows "js_le (Finite 1) (page (getPage_cursor d s))
     \<and> (page (getPage_cursor d s) = PosInfinity
          \<or> (\<exists>m. page (getPage_cursor d s) = Finite (of_int m)))"
proof (cases "page s = PosInfinity")
  case True
  then show ?thesis
    by (simp add: getPage_cursor_def js_add_def Let_def)
next
  case False
  with assms obtain n where n: "page s = Finite (of_int n)" by blast
  have rd: "js_le (Finite 1) (round_double (of_int k))
      \<and> (round_double (of_int k) = PosInfinity \<or> (\<exists>m. round_double (of_int k) = Finite (of_int m)))"
    if "\<not> k \<le> 0" for k
  proof -
    from that have "1 \<le> k" by simp
    from round_double_pos_int [OF this] show ?thesis by auto
  qed
  have step: "js_le (Finite 1) (if k \<le> 0 then Finite 1 else round_double (of_int k))
      \<and> ((if k \<le> 0 then Finite 1 else round_double (of_int k)) = PosInfinity
           \<or> (\<exists>m. (if k \<le> 0 then Finite 1 else round_double (of_int k)) = Finite (of_int m)))"
    for k
  proof (cases "k \<le> 0")
    case True
    have "Finite 1 = Finite (of_int 1)" by simp
    with True show ?thesis by (simp del: of_int_1)
  next
    case False
    with rd [OF False] show ?thesis by simp
  qed
  from assms(2) show ?thesis
  proof
    assume "d = 1"
    with getPage_cursor_int(1) [OF n] step [of "n + 1"] show ?thesis
      by (simp only:)
  next
    assume "d = - 1"
    with getPage_cursor_int(2) [OF n] step [of "n - 1"] show ?thesis
      by (simp only:)
  qed
qed

lemma listing_range_frame:
  assumes "page k = page s" "perPage k = perPage s"
  shows "listing_range k = listing_range s"
  by (simp only: listing_range_def assms)

lemma getPage_loop_frame:
  "getPage_loop env i m acc s = (r, s') \<Longrightarrow> page s' = page s \<and> perPage s' = perPage s"
proof (induction env i m acc s arbitrary: r s' rule: getPage_loop.induct)
  case (1 env i m acc s)
  show ?case
  proof (cases "i < m")
    case False
    with "1.prems" show ?thesis
      by (subst (asm) getPage_loop.simps) simp
  next
    case True
    show ?thesis
    proof (cases "addressFromIndex env pathBase i s")
      case (Inl e)
      with True "1.prems" show ?thesis
        by (subst (asm) getPage_loop.simps) simp
    next
      case (Inr a)
      show ?thesis
      proof (cases "toChecksumAddress env a")
        case (Inl e)
        with True Inr "1.prems" show ?thesis
          by (subst (asm) getPage_loop.simps) simp
      next
        case (Inr key)
        from True \<open>addressFromIndex env pathBase i s = Inr a\<close> Inr "1.prems"
        have "getPage_loop env (i + 1) m (acc @ [\<lparr>address = a, balance = None, index = i\<rparr>])
                (s\<lparr>paths := (paths s)(key \<mapsto> i)\<rparr>) = (r, s')"
          by (subst (asm) getPage_loop.simps) simp
        from "1.IH" [OF True \<open>addressFromIndex env pathBase i s = Inr a\<close> Inr this]
        show ?thesis by simp
      qed
    qed
  qed
qed

lemma getPage_after:
  assumes "getPage env d dev s = Some r"
  shows "page (after r) = page (getPage_cursor d s) \<and> perPage (after r) = perPage s"
proof -
  let ?s2 = "getPage_cursor d s"
  obtain o3 fx s3 where u: "unlock dev ?s2 = (o3, fx, s3)"
    by (cases "unlock dev ?s2") auto
  from unlock_frame [OF u] have f3: "page s3 = page ?s2" "perPage s3 = perPage s" by simp_all
  show ?thesis
  proof (cases o3)
    case (Resolved status)
    with assms u obtain a b where rg: "listing_range s3 = Some (a, b)"
      by (cases "listing_range s3") (auto simp: getPage_def)
    obtain r4 s4 where l: "getPage_loop env a b [] s3 = (r4, s4)"
      by (cases "getPage_loop env a b [] s3") auto
    from getPage_loop_frame [OF l] f3 have "page s4 = page ?s2" "perPage s4 = perPage s"
      by simp_all
    with assms u Resolved rg l show ?thesis
      by (cases r4) (auto simp: getPage_def after_def)
  next
    case (Rejected e)
    with assms u f3 show ?thesis by (auto simp: getPage_def after_def)
  next
    case Unsettled
    with assms u f3 show ?thesis by (auto simp: getPage_def after_def)
  qed
qed

lemma getPage_returns:
  assumes "listing_range (getPage_cursor d s) = Some rg"
  shows "\<exists>r. getPage env d dev s = Some r"
proof -
  let ?s2 = "getPage_cursor d s"
  obtain o3 fx s3 where u: "unlock dev ?s2 = (o3, fx, s3)"
    by (cases "unlock dev ?s2") auto
  from unlock_frame [OF u] have "listing_range s3 = listing_range ?s2"
    by (intro listing_range_frame) simp_all
  with assms obtain a b where rg: "listing_range s3 = Some (a, b)"
    by (cases rg) simp
  obtain r4 s4 where l: "getPage_loop env a b [] s3 = (r4, s4)"
    by (cases "getPage_loop env a b [] s3") auto
  from u rg l show ?thesis
    by (cases o3; cases r4) (auto simp: getPage_def)
qed

lemma listing_range_safe:
  assumes "page k = Finite (of_int m)" "1 \<le> m" "m \<le> 2 ^ 53"
    and "0 \<le> perPage k" "m * perPage k \<le> 2 ^ 53"
  shows "\<exists>rg. listing_range k = Some rg"
proof -
  let ?p = "perPage k"
  have to_eq: "(m - 1) * ?p + ?p = m * ?p" by (simp add: algebra_simps)
  from assms have "1 * ?p \<le> m * ?p" by (intro mult_right_mono) simp_all
  with assms have p: "?p \<le> 2 ^ 53" by simp
  from assms have f0: "0 \<le> (m - 1) * ?p" by simp
  from assms have "(m - 1) * ?p \<le> m * ?p" by (intro mult_right_mono) simp_all
  with assms have f1: "(m - 1) * ?p \<le> 2 ^ 53" by simp
  from assms have t0: "0 \<le> m * ?p" by simp
  from assms p f0 f1 t0 show ?thesis
    by (simp add: listing_range_def Let_def safe_integer_def to_eq)
qed


lemma request_page_cases:
  assumes "request_page env rq s = Some k"
  obtains r where "getPage env 1 (snd rq) (s\<lparr>page := 0\<rparr>) = Some r" "k = after r" "fst rq = First"
  | r where "getPage env 1 (snd rq) s = Some r" "k = after r" "fst rq = Next"
  | r where "getPage env (- 1) (snd rq) s = Some r" "k = after r" "fst rq = Previous"
  using assms
  by (cases "fst rq")
     (auto simp: request_page_def getFirstPage_def getNextPage_def getPreviousPage_def)

lemma request_page_floor:
  assumes inv: "page s = PosInfinity \<or> (\<exists>n. page s = Finite (of_int n))"
    and rq: "request_page env rq s = Some k"
  shows "js_le (Finite 1) (page k) \<and> (page k = PosInfinity \<or> (\<exists>m. page k = Finite (of_int m)))"
proof -
  have zero: "page (s\<lparr>page := 0\<rparr>) = PosInfinity \<or> (\<exists>n. page (s\<lparr>page := 0\<rparr>) = Finite (of_int n))"
  proof -
    have "page (s\<lparr>page := 0\<rparr>) = Finite (of_int 0)" by (simp add: zero_js_number_def)
    then show ?thesis by blast
  qed
  from rq show ?thesis
  proof (cases rule: request_page_cases)
    case (1 r)
    with getPage_after [OF 1(1)] getPage_cursor_floor [OF zero, of 1] show ?thesis by simp
  next
    case (2 r)
    with getPage_after [OF 2(1)] getPage_cursor_floor [OF inv, of 1] show ?thesis by simp
  next
    case (3 r)
    with getPage_after [OF 3(1)] getPage_cursor_floor [OF inv, of "- 1"] show ?thesis by simp
  qed
qed

lemma request_pages_floor:
  assumes "page s = PosInfinity \<or> (\<exists>n. page s = Finite (of_int n))"
    and "request_pages env rqs s = Some s'"
  shows "(page s' = PosInfinity \<or> (\<exists>m. page s' = Finite (of_int m)))
     \<and> (rqs \<noteq> [] \<longrightarrow> js_le (Finite 1) (page s'))"
  using assms
proof (induction rqs arbitrary: s)
  case Nil
  then show ?case by simp
next
  case (Cons rq rqs)
  from Cons.prems(2) obtain k where k: "request_page env rq s = Some k"
    and rest: "request_pages env rqs k = Some s'"
    by (cases "request_page env rq s") simp_all
  from request_page_floor [OF Cons.prems(1) k]
  have fl: "js_le (Finite 1) (page k)"
    and inv: "page k = PosInfinity \<or> (\<exists>m. page k = Finite (of_int m))"
    by simp_all
  from Cons.IH [OF inv rest] fl rest show ?case
    by (cases rqs) simp_all
qed

lemma getPage_cursor_exact:
  assumes "page s = Finite (of_int n)"
  shows "- (2 ^ 53) \<le> n \<and> n < 2 ^ 53 \<longrightarrow> page (getPage_cursor 1 s) = Finite (of_int (max 1 (n + 1)))"
    and "- (2 ^ 53) < n \<and> n \<le> 2 ^ 53 \<longrightarrow> page (getPage_cursor (- 1) s) = Finite (of_int (max 1 (n - 1)))"
proof -
  show "- (2 ^ 53) \<le> n \<and> n < 2 ^ 53 \<longrightarrow> page (getPage_cursor 1 s) = Finite (of_int (max 1 (n + 1)))"
  proof
    assume "- (2 ^ 53) \<le> n \<and> n < 2 ^ 53"
    then have "\<bar>n + 1\<bar> \<le> 2 ^ 53" by (simp add: abs_le_iff)
    from round_double_int_exact [OF this] getPage_cursor_int(1) [OF assms]
    show "page (getPage_cursor 1 s) = Finite (of_int (max 1 (n + 1)))"
      by (simp add: max_def)
  qed
  show "- (2 ^ 53) < n \<and> n \<le> 2 ^ 53 \<longrightarrow> page (getPage_cursor (- 1) s) = Finite (of_int (max 1 (n - 1)))"
  proof
    assume "- (2 ^ 53) < n \<and> n \<le> 2 ^ 53"
    then have "\<bar>n - 1\<bar> \<le> 2 ^ 53" by (simp add: abs_le_iff)
    from round_double_int_exact [OF this] getPage_cursor_int(2) [OF assms]
    show "page (getPage_cursor (- 1) s) = Finite (of_int (max 1 (n - 1)))"
      by (simp add: max_def)
  qed
qed

lemma request_page_returns:
  assumes pg: "page s = Finite (of_int m)" and m0: "0 \<le> m" and m1: "m + 1 \<le> 2 ^ 53"
    and p0: "0 \<le> perPage s" and mp: "(m + 1) * perPage s \<le> 2 ^ 53"
  shows "\<exists>k m'. request_page env rq s = Some k \<and> page k = Finite (of_int m')
     \<and> 1 \<le> m' \<and> m' \<le> m + 1 \<and> perPage k = perPage s"
proof -
  have run: "\<exists>r m'. getPage env d dev k = Some r \<and> page (after r) = Finite (of_int m')
      \<and> 1 \<le> m' \<and> m' \<le> m + 1 \<and> perPage (after r) = perPage s"
    if c: "page (getPage_cursor d k) = Finite (of_int m')" "1 \<le> m'" "m' \<le> m + 1"
      and pk: "perPage k = perPage s" for d dev k m'
  proof -
    from c m1 have le: "m' \<le> 2 ^ 53" by simp
    from c p0 have "m' * perPage s \<le> (m + 1) * perPage s"
      by (intro mult_right_mono) simp_all
    with mp have "m' * perPage s \<le> 2 ^ 53" by simp
    with listing_range_safe [of "getPage_cursor d k" m'] c le p0 pk
    obtain rg where "listing_range (getPage_cursor d k) = Some rg" by auto
    from getPage_returns [OF this] obtain r where r: "getPage env d dev k = Some r" by blast
    from getPage_after [OF r] c pk r show ?thesis by auto
  qed
  have z: "page (s\<lparr>page := 0\<rparr>) = Finite (of_int 0)" by (simp add: zero_js_number_def)
  have first: "page (getPage_cursor 1 (s\<lparr>page := 0\<rparr>)) = Finite (of_int 1)"
    using getPage_cursor_exact(1) [OF z] by simp
  have nxt: "page (getPage_cursor 1 s) = Finite (of_int (m + 1))"
    using getPage_cursor_exact(1) [OF pg] m0 m1 by (simp add: max_def)
  have prv: "page (getPage_cursor (- 1) s) = Finite (of_int (max 1 (m - 1)))"
    using getPage_cursor_exact(2) [OF pg] m0 m1 by simp
  show ?thesis
  proof (cases "fst rq")
    case First
    from run [OF first, of "snd rq"] m0 First show ?thesis
      by (auto simp: request_page_def getFirstPage_def)
  next
    case Next
    from run [OF nxt, of "snd rq"] m0 Next show ?thesis
      by (auto simp: request_page_def getNextPage_def)
  next
    case Previous
    from run [OF prv, of "snd rq"] m0 Previous show ?thesis
      by (auto simp: request_page_def getPreviousPage_def)
  qed
qed

lemma request_pages_return:
  assumes "page s = Finite (of_int m)" "0 \<le> m" "0 \<le> perPage s"
    and "m + int (length rqs) \<le> 2 ^ 53"
    and "(m + int (length rqs)) * perPage s \<le> 2 ^ 53"
  shows "\<exists>s'. request_pages env rqs s = Some s'"
  using assms
proof (induction rqs arbitrary: s m)
  case Nil
  show ?case by simp
next
  case (Cons rq rqs)
  have len: "m + 1 \<le> m + int (length (rq # rqs))" by simp
  with Cons.prems have m1: "m + 1 \<le> 2 ^ 53" by linarith
  from len Cons.prems have "(m + 1) * perPage s \<le> (m + int (length (rq # rqs))) * perPage s"
    by (intro mult_right_mono) simp_all
  with Cons.prems have mp: "(m + 1) * perPage s \<le> 2 ^ 53" by linarith
  from request_page_returns [OF Cons.prems(1,2) m1 Cons.prems(3) mp, of env rq]
  obtain k m' where k: "request_page env rq s = Some k" "page k = Finite (of_int m')"
    "1 \<le> m'" "m' \<le> m + 1" "perPage k = perPage s"
    by blast
  have b1: "m' + int (length rqs) \<le> m + int (length (rq # rqs))"
    using k(4) by simp
  with Cons.prems have l1: "m' + int (length rqs) \<le> 2 ^ 53" by linarith
  from b1 Cons.prems have "(m' + int (length rqs)) * perPage s
      \<le> (m + int (length (rq # rqs))) * perPage s"
    by (intro mult_right_mono) simp_all
  with Cons.prems k(5) have l2: "(m' + int (length rqs)) * perPage k \<le> 2 ^ 53" by simp
  from k(3) have m0: "0 \<le> m'" by simp
  from Cons.prems k(5) have p0: "0 \<le> perPage k" by simp
  from Cons.IH [OF k(2) m0 p0 l1 l2] k(1) show ?case by simp
qed

lemma constructor_unlock_rejected:
  "hdk k = None \<Longrightarrow> unlock (Reply (XpubSuccess pk cc)) k
     = (Rejected (Thrown (Error ''TypeError: Cannot set properties of null (setting 'publicKey')'')),
        [GetXPublickey (hdPath k)], k)"
  by (simp add: unlock_def isUnlocked_def null_hdk_message_def error_toString_def or_unknown_def)

text \<open>
  Claim C10, as stated (once a page has been requested, \<open>page\<close> is always at least 1;
  \<open>getNextPage\<close> advances it by 1 and \<open>getPreviousPage\<close> never drives it below 1),
  fails. After \<open>getNextPage\<close> on a new keyring has left \<open>page\<close> at 1, \<open>deserialize\<close>
  sets it to 0, and so does \<open>addAccounts\<close>. On a keyring constructed with \<open>page\<close> 1.5,
  \<open>getPreviousPage\<close> leaves 0.5. On a keyring constructed with \<open>page\<close> \<open>2 ^ 53\<close>,
  \<open>getNextPage\<close> leaves \<open>page\<close> where it was.
\<close>

theorem pagination_floor_counterexample:
  "request_page mock_env (Next, Reply (XpubSuccess ''02ab'' ''cd'')) (constructor no_opts)
     = Some ((constructor no_opts)\<lparr>page := Finite 1\<rparr>)
   \<and> page (deserialize no_opts ((constructor no_opts)\<lparr>page := Finite 1\<rparr>)) = Finite 0
   \<and> page (after (addAccounts mock_env 1 (Reply (XpubSuccess ''02ab'' ''cd''))
        (unlocked_keyring\<lparr>page := Finite 1\<rparr>))) = Finite 0
   \<and> \<not> js_le (Finite 1) (Finite 0)
   \<and> page fractional_keyring = Finite (3 / 2)
   \<and> request_page mock_env (Previous, Reply (XpubSuccess ''02ab'' ''cd'')) fractional_keyring
     = Some (fractional_keyring\<lparr>page := Finite (1 / 2)\<rparr>)
   \<and> \<not> js_le (Finite 1) (Finite (1 / 2))
   \<and> page large_keyring = Finite (2 ^ 53)
   \<and> request_page mock_env (Next, Reply (XpubSuccess ''02ab'' ''cd'')) large_keyring
     = Some large_keyring"
proof -
  let ?dev = "Reply (XpubSuccess ''02ab'' ''cd'')"
  have rej: "getPage env d ?dev k
      = Some (Rejected (Thrown (Error ''TypeError: Cannot set properties of null (setting 'publicKey')'')),
              [GetXPublickey (hdPath k)], getPage_cursor d k)"
    if "hdk k = None" for env d k
  proof -
    from that have h: "hdk (getPage_cursor d k) = None" "hdPath (getPage_cursor d k) = hdPath k"
      by (simp_all add: getPage_cursor_def Let_def)
    from constructor_unlock_rejected [OF h(1)] h(2) show ?thesis
      by (simp add: getPage_def)
  qed
  have p0: "page (constructor no_opts) = Finite 0"
    by (simp add: constructor_def deserialize_def no_opts_def number_or_def zero_js_number_def)
  have c1: "request_page mock_env (Next, ?dev) (constructor no_opts)
     = Some ((constructor no_opts)\<lparr>page := Finite 1\<rparr>)"
    by (simp add: request_page_def getNextPage_def rej constructor_hdk after_def
        getPage_cursor_def js_add_def p0 round_double_1 Let_def)
  have c2: "page (deserialize no_opts ((constructor no_opts)\<lparr>page := Finite 1\<rparr>)) = Finite 0"
    by (simp add: deserialize_def no_opts_def number_or_def zero_js_number_def)
  have "addAccounts_loop mock_env 0 1 (unlocked_keyring\<lparr>page := Finite 1\<rparr>)
      = (None, unlocked_keyring\<lparr>accounts := [''0xm/0''], page := 0\<rparr>)"
    by (simp add: addAccounts_loop.simps mock_addressFromIndex unlocked_keyring_fields show_int_0)
  then have c3: "page (after (addAccounts mock_env 1 ?dev (unlocked_keyring\<lparr>page := Finite 1\<rparr>)))
      = Finite 0"
    by (simp add: addAccounts_def unlock_def isUnlocked_def unlocked_keyring_fields after_def
        zero_js_number_def)
  have pf: "page fractional_keyring = Finite (3 / 2)" "hdk fractional_keyring = None"
    by (simp_all add: fractional_keyring_def constructor_def deserialize_def no_opts_def
        number_or_def zero_js_number_def)
  have c4: "request_page mock_env (Previous, ?dev) fractional_keyring
     = Some (fractional_keyring\<lparr>page := Finite (1 / 2)\<rparr>)"
    by (simp add: request_page_def getPreviousPage_def rej pf after_def
        getPage_cursor_def js_add_def round_double_half Let_def)
  have pl: "page large_keyring = Finite (2 ^ 53)" "hdk large_keyring = None"
    by (simp_all add: large_keyring_def constructor_def deserialize_def no_opts_def
        number_or_def zero_js_number_def)
  have "large_keyring\<lparr>page := Finite 9007199254740992\<rparr> = large_keyring"
    using pl(1) by (cases large_keyring) simp
  then have c6: "request_page mock_env (Next, ?dev) large_keyring = Some large_keyring"
    by (simp add: request_page_def getNextPage_def rej pl after_def
        getPage_cursor_def js_add_def round_double_above_2_53 Let_def)
  from c1 c2 c3 pf(1) c4 pl(1) c6 show ?thesis by simp
qed

text \<open>
  Claim C10, amended: for a keyring whose \<open>page\<close> is an integer, whenever a page
  request returns, \<open>getFirstPage\<close> leaves \<open>page\<close> at 1, and \<open>getNextPage\<close> and
  \<open>getPreviousPage\<close> leave it at least 1: at \<open>page + 1\<close> (or 1 if that is not positive)
  from a page of at least \<open>- 2 ^ 53\<close> and below \<open>2 ^ 53\<close>, and at \<open>page - 1\<close> (or 1 if that
  is not positive) from a page above \<open>- 2 ^ 53\<close> and at most \<open>2 ^ 53\<close>. So after any
  non-empty sequence of page requests that returns, \<open>page\<close> is at least 1. A sequence
  of page requests from a page \<open>n \<ge> 0\<close> with \<open>perPage \<ge> 0\<close> returns whenever \<open>n\<close> plus
  its length, and that sum times \<open>perPage\<close>, are at most \<open>2 ^ 53\<close>.
\<close>

theorem pagination_floor:
  assumes "page s = Finite (of_int n)"
  shows "(\<forall>r. getFirstPage env dev s = Some r \<longrightarrow> page (after r) = Finite 1)
   \<and> (\<forall>r. getNextPage env dev s = Some r \<longrightarrow>
         js_le (Finite 1) (page (after r))
         \<and> (- (2 ^ 53) \<le> n \<and> n < 2 ^ 53 \<longrightarrow> page (after r) = Finite (of_int (max 1 (n + 1)))))
   \<and> (\<forall>r. getPreviousPage env dev s = Some r \<longrightarrow>
         js_le (Finite 1) (page (after r))
         \<and> (- (2 ^ 53) < n \<and> n \<le> 2 ^ 53 \<longrightarrow> page (after r) = Finite (of_int (max 1 (n - 1)))))
   \<and> (\<forall>s'. rqs \<noteq> [] \<and> request_pages env rqs s = Some s' \<longrightarrow> js_le (Finite 1) (page s'))
   \<and> (0 \<le> n \<and> 0 \<le> perPage s \<and> n + int (length rqs) \<le> 2 ^ 53
        \<and> (n + int (length rqs)) * perPage s \<le> 2 ^ 53
       \<longrightarrow> (\<exists>s'. request_pages env rqs s = Some s'))"
proof (intro conjI allI impI)
  have inv: "page s = PosInfinity \<or> (\<exists>n. page s = Finite (of_int n))"
    using assms by blast
  have z: "page (s\<lparr>page := 0\<rparr>) = Finite (of_int 0)" by (simp add: zero_js_number_def)
  show "page (after r) = Finite 1" if "getFirstPage env dev s = Some r" for r
    using getPage_after [of env 1 dev "s\<lparr>page := 0\<rparr>" r] that getPage_cursor_exact(1) [OF z]
    by (simp add: getFirstPage_def)
  show "js_le (Finite 1) (page (after r))" if "getNextPage env dev s = Some r" for r
    using getPage_after [of env 1 dev s r] that getPage_cursor_floor [OF inv, of 1]
    by (simp add: getNextPage_def)
  show "page (after r) = Finite (of_int (max 1 (n + 1)))"
    if "getNextPage env dev s = Some r" "- (2 ^ 53) \<le> n \<and> n < 2 ^ 53" for r
    using getPage_after [of env 1 dev s r] that getPage_cursor_exact(1) [OF assms]
    by (simp add: getNextPage_def)
  show "js_le (Finite 1) (page (after r))" if "getPreviousPage env dev s = Some r" for r
    using getPage_after [of env "- 1" dev s r] that getPage_cursor_floor [OF inv, of "- 1"]
    by (simp add: getPreviousPage_def)
  show "page (after r) = Finite (of_int (max 1 (n - 1)))"
    if "getPreviousPage env dev s = Some r" "- (2 ^ 53) < n \<and> n \<le> 2 ^ 53" for r
    using getPage_after [of env "- 1" dev s r] that getPage_cursor_exact(2) [OF assms]
    by (simp add: getPreviousPage_def)
  show "js_le (Finite 1) (page s')" if "rqs \<noteq> [] \<and> request_pages env rqs s = Some s'" for s'
    using request_pages_floor [OF inv, of env rqs s'] that by simp
  show "\<exists>s'. request_pages env rqs s = Some s'"
    if "0 \<le> n \<and> 0 \<le> perPage s \<and> n + int (length rqs) \<le> 2 ^ 53
        \<and> (n + int (length rqs)) * perPage s \<le> 2 ^ 53"
    using request_pages_return [OF assms, of rqs env] that by simp
qed

theorem pagination_floor_witness:
  "(\<exists>s'. request_pages mock_env
        [(Previous, Reply (XpubSuccess ''02ab'' ''cd'')), (Next, Reply (XpubSuccess ''02ab'' ''cd''))]
        unlocked_keyring = Some s' \<and> js_le (Finite 1) (page s'))
   \<and> (\<exists>r. getFirstPage mock_env (Reply (XpubSuccess ''02ab'' ''cd''))
            (unlocked_keyring\<lparr>page := Finite 3\<rparr>) = Some r
         \<and> page (after r) = Finite 1)
   \<and> (\<exists>r. getNextPage mock_env (Reply (XpubSuccess ''02ab'' ''cd'')) unlocked_keyring = Some r
         \<and> page (after r) = Finite 1)
   \<and> (\<exists>r. getPreviousPage mock_env (Reply (XpubSuccess ''02ab'' ''cd''))
            (unlocked_keyring\<lparr>page := Finite 3\<rparr>) = Some r
         \<and> page (after r) = Finite 2)"
proof -
  let ?dev = "Reply (XpubSuccess ''02ab'' ''cd'')"
  have p: "page unlocked_keyring = Finite (of_int 0)" "perPage unlocked_keyring = 5"
    by (simp_all add: unlocked_keyring_def constructor_def deserialize_def no_opts_def
        number_or_def zero_js_number_def)
  have p3: "page (unlocked_keyring\<lparr>page := Finite 3\<rparr>) = Finite (of_int 3)"
    "perPage (unlocked_keyring\<lparr>page := Finite 3\<rparr>) = 5"
    by (simp_all add: p)
  note a = pagination_floor [OF p(1), of mock_env ?dev "[(Previous, ?dev), (Next, ?dev)]"]
  note b = pagination_floor [OF p(1), of mock_env ?dev "[(Next, ?dev)]"]
  note c = pagination_floor [OF p3(1), of mock_env ?dev "[(Previous, ?dev)]"]
  note d = pagination_floor [OF p3(1), of mock_env ?dev "[(First, ?dev)]"]
  from a p(2) obtain s' where s': "request_pages mock_env [(Previous, ?dev), (Next, ?dev)]
      unlocked_keyring = Some s'"
    by auto
  with a have 1: "js_le (Finite 1) (page s')" by simp
  from b p(2) obtain k where "request_pages mock_env [(Next, ?dev)] unlocked_keyring = Some k"
    by auto
  then obtain r where r: "getNextPage mock_env ?dev unlocked_keyring = Some r"
    by (auto simp: request_page_def split: option.splits)
  with b have 2: "page (after r) = Finite 1" by simp
  from c p3(2) obtain k' where "request_pages mock_env [(Previous, ?dev)]
      (unlocked_keyring\<lparr>page := Finite 3\<rparr>) = Some k'"
    by auto
  then obtain r' where r': "getPreviousPage mock_env ?dev (unlocked_keyring\<lparr>page := Finite 3\<rparr>) = Some r'"
    by (auto simp: request_page_def split: option.splits)
  with c have 3: "page (after r') = Finite 2" by simp
  from d p3(2) obtain k'' where "request_pages mock_env [(First, ?dev)]
      (unlocked_keyring\<lparr>page := Finite 3\<rparr>) = Some k''"
    by auto
  then obtain r'' where r'': "getFirstPage mock_env ?dev (unlocked_keyring\<lparr>page := Finite 3\<rparr>) = Some r''"
    by (auto simp: request_page_def split: option.splits)
  with d have 4: "page (after r'') = Finite 1" by simp
  from s' 1 r 2 r' 3 r'' 4 show ?thesis by blast
qed

end
